theory Spec2Isabelle
  imports
    Complex_Main
    "HOL-Library.Char_ord"
    "HOL-Library.List_Lexorder"
    "HOL-Library.Multiset"
    "HOL-Library.Sublist"
begin

section \<open>Data model\<close>

text \<open>
  The dashboard of \<^verbatim>\<open>supermarket_eda.py\<close> works on a pandas DataFrame read from
  \<^verbatim>\<open>supermarket_sales.csv\<close>. A row of the frame is a record with one field per
  column (names as \<^verbatim>\<open>load_data\<close> normalises them). A cell that pandas holds as
  NaN or NaT is \<open>None\<close>. An amount is a float64 cell, given by the real number it
  denotes; a timestamp is an integer count of time units since the epoch. The two columns \<^verbatim>\<open>load_data\<close> converts (\<open>date\<close> and
  \<open>total\<close>) are type parameters, so the same record describes the frame before and
  after the conversion.
\<close>

type_synonym timestamp = int

record ('d, 't) txn =
  invoice_id :: string
  branch :: "string option"
  city :: "string option"
  customer_type :: "string option"
  gender :: "string option"
  product_line :: "string option"
  unit_price :: "real option"
  quantity :: "real option"
  tax :: "real option"
  total :: 't
  date :: 'd
  payment :: "string option"
  cogs :: "real option"
  gross_margin_percentage :: "real option"
  gross_income :: "real option"
  rating :: "real option"

text \<open>
  A frame: its rows in index order, whether it has a \<open>date\<close> column at all, and the
  names of its columns of dtype \<^verbatim>\<open>object\<close>, the columns that hold text. A column
  without any text (every cell empty) is read as a numeric column and is not among them.
\<close>

record 'r frame =
  rows :: "'r list"
  has_date :: bool
  object_columns :: "string list"

type_synonym raw_row = "(string option, string option) txn"
type_synonym row = "(timestamp option, real option) txn"
type_synonym dataset = "row frame"

datatype error = ValueError | KeyError | AttributeError

section \<open>Filtering (\<^verbatim>\<open>main\<close>)\<close>

text \<open>
  The sidebar widgets deliver the Filter Selection: the two ends of the date range
  (after \<^verbatim>\<open>pd.to_datetime\<close>) and the three multiselect lists.
\<close>

record selection =
  start_date :: timestamp
  end_date :: timestamp
  city_filter :: "string option list"
  product_filter :: "string option list"
  gender_filter :: "string option list"

text \<open>\<^verbatim>\<open>Series.isin\<close>: membership in the given values (NaN matches NaN).\<close>

definition isin :: "'a \<Rightarrow> 'a list \<Rightarrow> bool" where
  "isin v vs = (v \<in> set vs)"

text \<open>
  \<^verbatim>\<open>(df['date'] >= start) & (df['date'] <= end)\<close>: a comparison with NaT is False.
\<close>

definition date_mask :: "selection \<Rightarrow> row \<Rightarrow> bool" where
  "date_mask s r =
     (case date r of None \<Rightarrow> False | Some d \<Rightarrow> start_date s \<le> d \<and> d \<le> end_date s)"

definition category_mask :: "selection \<Rightarrow> row \<Rightarrow> bool" where
  "category_mask s r =
     (isin (city r) (city_filter s) \<and> isin (product_line r) (product_filter s)
      \<and> isin (gender r) (gender_filter s))"

text \<open>\<^verbatim>\<open>df[mask]\<close>: a new frame with the rows where the mask holds, in index order.\<close>

definition getitem_mask :: "('r \<Rightarrow> bool) \<Rightarrow> 'r frame \<Rightarrow> 'r frame" where
  "getitem_mask m df = df\<lparr>rows := filter m (rows df)\<rparr>"

text \<open>Lines 146-160 of \<^verbatim>\<open>main\<close>: the date range first (when there is a date column),
  then the three categorical masks.\<close>

definition main_filter :: "dataset \<Rightarrow> selection \<Rightarrow> dataset" where
  "main_filter df s =
     (let df1 = (if has_date df then getitem_mask (date_mask s) df else df)
      in getitem_mask (category_mask s) df1)"

text \<open>
  The same steps on an explicit object store, to speak about what they leave alone.
  Objects live in a list, an address is a position in it; \<^verbatim>\<open>df[mask]\<close> allocates a
  new frame at the end, and an assignment rebinds a local name to an address.
\<close>

type_synonym store = "dataset list"

record env =
  heap :: store
  df_var :: nat
  filtered_var :: "nat option"

definition alloc :: "store \<Rightarrow> dataset \<Rightarrow> store \<times> nat" where
  "alloc h d = (h @ [d], length h)"

definition main_filter_steps :: "env \<Rightarrow> selection \<Rightarrow> env" where
  "main_filter_steps e s =
     (let d0 = heap e ! df_var e;
          e1 = (if has_date d0
                then (let (h1, a1) = alloc (heap e) (getitem_mask (date_mask s) d0)
                      in e\<lparr>heap := h1, df_var := a1\<rparr>)
                else e);
          d1 = heap e1 ! df_var e1;
          (h2, a2) = alloc (heap e1) (getitem_mask (category_mask s) d1)
      in e1\<lparr>heap := h2, filtered_var := Some a2\<rparr>)"

section \<open>Binary64 arithmetic\<close>

text \<open>
  The amounts are float64 cells. A float64 operation returns the exact result rounded
  to the nearest number with a 53-bit significand, ties to the even significand
  (overflow and subnormal numbers are left out: the model is that of the normal
  range). A value is a real number here, and a float64 value is one that rounding
  leaves unchanged. \<open>binade a\<close> is the power of two with \<open>binade a \<le> a < 2 * binade a\<close>
  for a positive \<open>a\<close>.
\<close>

function scale_down :: "real \<Rightarrow> real \<Rightarrow> real" where
  "scale_down a u = (if 2 \<le> a then scale_down (a / 2) (u * 2) else u)"
  by pat_completeness auto
termination
proof (relation "measure (\<lambda>(a, u). nat \<lfloor>a\<rfloor>)")
  show "wf (measure (\<lambda>(a::real, u::real). nat \<lfloor>a\<rfloor>))" by simp
next
  fix a u :: real
  assume "2 \<le> a"
  then have "\<lfloor>a / 2\<rfloor> < \<lfloor>a\<rfloor>" "0 < \<lfloor>a\<rfloor>" by linarith+
  then show "((a / 2, u * 2), (a, u)) \<in> measure (\<lambda>(a, u). nat \<lfloor>a\<rfloor>)" by simp
qed

function scale_up :: "real \<Rightarrow> real \<Rightarrow> real" where
  "scale_up a u = (if 0 < a \<and> a < 1 then scale_up (a * 2) (u / 2) else u)"
  by pat_completeness auto
termination
proof (relation "measure (\<lambda>(a, u). nat \<lceil>1 / a\<rceil>)")
  show "wf (measure (\<lambda>(a::real, u::real). nat \<lceil>1 / a\<rceil>))" by simp
next
  fix a u :: real
  assume a: "0 < a \<and> a < 1"
  define y where "y = 1 / a"
  have y: "1 < y" using a by (simp add: y_def)
  have h: "1 / (a * 2) = y / 2" by (simp add: y_def)
  have "\<lceil>y / 2\<rceil> < \<lceil>y\<rceil>"
  proof (cases "y \<le> 2")
    case True
    then have "\<lceil>y / 2\<rceil> \<le> 1" by (simp add: ceiling_le_iff)
    moreover have "1 < \<lceil>y\<rceil>" using y by (simp add: less_ceiling_iff)
    ultimately show ?thesis by linarith
  next
    case False
    then have "y / 2 \<le> y - 1" by simp
    then have "\<lceil>y / 2\<rceil> \<le> \<lceil>y - 1\<rceil>" by (rule ceiling_mono)
    then show ?thesis by simp
  qed
  moreover have "0 < \<lceil>y\<rceil>" using y by linarith
  ultimately show "((a * 2, u / 2), (a, u)) \<in> measure (\<lambda>(a, u). nat \<lceil>1 / a\<rceil>)"
    by (simp add: h y_def [symmetric])
qed

definition binade :: "real \<Rightarrow> real" where
  "binade a = (if a < 1 then scale_up a 1 else scale_down a 1)"

text \<open>The distance between neighbouring float64 numbers at the magnitude of \<open>x\<close>.\<close>

definition f64_ulp :: "real \<Rightarrow> real" where
  "f64_ulp x = binade \<bar>x\<bar> / 2 ^ 52"

definition round_half_even :: "real \<Rightarrow> int" where
  "round_half_even q =
     (let f = \<lfloor>q\<rfloor>; d = q - of_int f
      in if d < 1 / 2 then f else if 1 / 2 < d then f + 1 else if even f then f else f + 1)"

definition f64_round :: "real \<Rightarrow> real" where
  "f64_round x = (if x = 0 then 0 else of_int (round_half_even (x / f64_ulp x)) * f64_ulp x)"

definition f64_add :: "real \<Rightarrow> real \<Rightarrow> real" where
  "f64_add x y = f64_round (x + y)"

definition f64_div :: "real \<Rightarrow> real \<Rightarrow> real" where
  "f64_div x y = f64_round (x / y)"

section \<open>Series reductions\<close>

text \<open>\<^verbatim>\<open>dropna\<close>: the values that are present, in order.\<close>

definition dropna :: "'a option list \<Rightarrow> 'a list" where
  "dropna vs = List.map_filter id vs"

text \<open>
  \<^verbatim>\<open>Series.sum()\<close> skips NaN and adds the present cells, one float64 addition after
  the other in index order, starting from 0; the sum of no value is 0.
\<close>

definition series_sum :: "real option list \<Rightarrow> real" where
  "series_sum vs = foldl f64_add 0 (dropna vs)"

text \<open>\<^verbatim>\<open>Series.mean()\<close> skips NaN and divides the sum by the count; the mean of no
  value is NaN.\<close>

definition series_mean :: "real option list \<Rightarrow> real option" where
  "series_mean vs =
     (let xs = dropna vs
      in if xs = [] then None
         else Some (f64_div (foldl f64_add 0 xs) (real (length xs))))"

text \<open>\<^verbatim>\<open>Series.max()\<close> of a series without NaN; NaN when the series is empty.\<close>

fun series_max :: "real list \<Rightarrow> real option" where
  "series_max [] = None"
| "series_max (x # xs) = Some (fold max xs x)"

text \<open>
  \<^verbatim>\<open>Series.idxmax()\<close> on a series of (label, value) pairs without NaN: the label of
  the first occurrence of the maximum. On an empty series pandas raises ValueError.
\<close>

fun idxmax_from :: "'k \<times> real \<Rightarrow> ('k \<times> real) list \<Rightarrow> 'k" where
  "idxmax_from best [] = fst best"
| "idxmax_from best (kv # kvs) = idxmax_from (if snd best < snd kv then kv else best) kvs"

fun idxmax :: "('k \<times> real) list \<Rightarrow> error + 'k" where
  "idxmax [] = Inl ValueError"
| "idxmax (kv # kvs) = Inr (idxmax_from kv kvs)"

section \<open>Group-by\<close>

text \<open>
  \<^verbatim>\<open>df.groupby(col)['total'].sum()\<close>: one entry per distinct label of the column,
  labels in ascending order (\<^verbatim>\<open>sort=True\<close>), rows whose label is NaN dropped
  (\<^verbatim>\<open>dropna=True\<close>), the entry being the NaN-skipping sum of \<open>total\<close> over the
  rows with that label.
\<close>

definition group_keys :: "(row \<Rightarrow> string option) \<Rightarrow> dataset \<Rightarrow> string list" where
  "group_keys col df = sort (remdups (dropna (map col (rows df))))"

definition groupby_total_sum :: "(row \<Rightarrow> string option) \<Rightarrow> dataset \<Rightarrow> (string \<times> real) list" where
  "groupby_total_sum col df =
     map (\<lambda>k. (k, series_sum (map total (filter (\<lambda>r. col r = Some k) (rows df)))))
       (group_keys col df)"

section \<open>Sorting\<close>

text \<open>
  \<^verbatim>\<open>sort_values\<close> is called with the default \<^verbatim>\<open>kind='quicksort'\<close>, whose argsort
  kernel belongs to the array library. The kernel is a parameter \<open>kind\<close> of the model:
  it maps the keys to the positions in ascending key order. \<open>argsort_ok\<close> is what every
  kernel guarantees; the order among equal keys is the kernel's own.
\<close>

type_synonym argsort = "real list \<Rightarrow> nat list"

definition argsort_ok :: "argsort \<Rightarrow> bool" where
  "argsort_ok kind =
     (\<forall>xs. mset (kind xs) = mset [0..<length xs] \<and> sorted (map (\<lambda>i. xs ! i) (kind xs)))"

text \<open>The kernel of \<^verbatim>\<open>kind='stable'\<close>: equal keys stay in index order.\<close>

definition stable_argsort :: argsort where
  "stable_argsort xs = sort_key (\<lambda>i. xs ! i) [0..<length xs]"

text \<open>A kernel that sorts as well and leaves equal keys in descending index order.\<close>

definition reversing_argsort :: argsort where
  "reversing_argsort xs = rev (sort_key (\<lambda>i. - (xs ! i)) [0..<length xs])"

text \<open>
  pandas' \<^verbatim>\<open>nargsort\<close>: NaN keys are set aside and placed last; for a descending sort
  the present keys and their positions are reversed, sorted ascending by the kernel,
  and the result reversed again.
\<close>

definition nargsort :: "argsort \<Rightarrow> bool \<Rightarrow> real option list \<Rightarrow> nat list" where
  "nargsort kind ascending items =
     (let idx = [0..<length items];
          non_nan_idx = filter (\<lambda>i. items ! i \<noteq> None) idx;
          nan_idx = filter (\<lambda>i. items ! i = None) idx;
          non_nan_idx' = (if ascending then non_nan_idx else rev non_nan_idx);
          non_nans = map (\<lambda>i. the (items ! i)) non_nan_idx';
          indexer = map (\<lambda>j. non_nan_idx' ! j) (kind non_nans);
          indexer' = (if ascending then indexer else rev indexer)
      in indexer' @ nan_idx)"

text \<open>\<^verbatim>\<open>df.sort_values(by, ascending=...)\<close> on a key column.\<close>

definition sort_values :: "argsort \<Rightarrow> bool \<Rightarrow> ('r \<Rightarrow> real option) \<Rightarrow> 'r list \<Rightarrow> 'r list" where
  "sort_values kind ascending key rs =
     map (\<lambda>i. rs ! i) (nargsort kind ascending (map key rs))"

text \<open>\<^verbatim>\<open>Series.value_counts()\<close>: the number of occurrences of each present value,
  values in order of first appearance, then sorted by descending count.\<close>

definition value_counts :: "argsort \<Rightarrow> string option list \<Rightarrow> (string \<times> real) list" where
  "value_counts kind vs =
     (let xs = dropna vs;
          ks = rev (remdups (rev xs))
      in sort_values kind False (\<lambda>kv. Some (snd kv))
           (map (\<lambda>k. (k, real (count_list xs k))) ks))"

section \<open>Loading (\<^verbatim>\<open>load_data\<close>)\<close>

text \<open>
  The frame as \<^verbatim>\<open>read_csv\<close> delivers it has text (or an empty cell, \<open>None\<close>) in
  the \<open>date\<close> and \<open>total\<close> columns. The two converters are the library's and are
  parameters here: \<open>to_numeric s\<close> is the number a text denotes, \<open>None\<close> when it denotes
  none; \<open>to_datetime s\<close> likewise for a date. With \<^verbatim>\<open>errors='coerce'\<close> a total that
  is not numeric becomes NaN; \<^verbatim>\<open>pd.to_datetime\<close> is called without it and raises
  on a date it cannot parse. An empty cell stays NaN (NaT). After the conversion
  neither column holds text.
\<close>

definition coerce_total :: "(string \<Rightarrow> real option) \<Rightarrow> string option \<Rightarrow> real option" where
  "coerce_total to_numeric c = (case c of None \<Rightarrow> None | Some s \<Rightarrow> to_numeric s)"

definition date_parses :: "(string \<Rightarrow> timestamp option) \<Rightarrow> string option \<Rightarrow> bool" where
  "date_parses to_datetime c = (case c of None \<Rightarrow> True | Some s \<Rightarrow> to_datetime s \<noteq> None)"

definition convert_date :: "(string \<Rightarrow> timestamp option) \<Rightarrow> string option \<Rightarrow> timestamp option" where
  "convert_date to_datetime c = (case c of None \<Rightarrow> None | Some s \<Rightarrow> to_datetime s)"

definition load_row ::
  "(string \<Rightarrow> real option) \<Rightarrow> (string option \<Rightarrow> timestamp option) \<Rightarrow> raw_row \<Rightarrow> row" where
  "load_row to_numeric conv r =
     \<lparr>invoice_id = invoice_id r, branch = branch r, city = city r,
      customer_type = customer_type r, gender = gender r, product_line = product_line r,
      unit_price = unit_price r, quantity = quantity r, tax = tax r,
      total = coerce_total to_numeric (total r), date = conv (date r),
      payment = payment r, cogs = cogs r,
      gross_margin_percentage = gross_margin_percentage r,
      gross_income = gross_income r, rating = rating r\<rparr>"

definition load_data ::
  "(string \<Rightarrow> real option) \<Rightarrow> (string \<Rightarrow> timestamp option) \<Rightarrow> raw_row frame
     \<Rightarrow> error + dataset" where
  "load_data to_numeric to_datetime raw =
     (if has_date raw \<and> \<not> list_all (\<lambda>r. date_parses to_datetime (date r)) (rows raw)
      then Inl ValueError
      else Inr \<lparr>rows = map (load_row to_numeric
                    (if has_date raw then convert_date to_datetime else (\<lambda>_. None)))
                  (rows raw),
                has_date = has_date raw,
                object_columns =
                  filter (\<lambda>c. c \<noteq> ''date'' \<and> c \<noteq> ''total'') (object_columns raw)\<rparr>)"

section \<open>The dashboard's aggregations (\<^verbatim>\<open>class Dashboard\<close>)\<close>

record kpis =
  total_sales :: real
  average_rating :: "real option"
  transactions :: nat

definition show_kpis :: "dataset \<Rightarrow> kpis" where
  "show_kpis df =
     \<lparr>total_sales = series_sum (map total (rows df)),
      average_rating = series_mean (map rating (rows df)),
      transactions = length (rows df)\<rparr>"

text \<open>What a method hands to the charting library: the kind of chart and its series.\<close>

datatype chart =
  Barh "(string \<times> real) list"
| Bar "(string \<times> real) list"
| Pie "(string \<times> real) list"

text \<open>\<^verbatim>\<open>Series.sort_values()\<close> of a series without NaN: ascending by value.\<close>

definition series_sort_values :: "argsort \<Rightarrow> (string \<times> real) list \<Rightarrow> (string \<times> real) list" where
  "series_sort_values kind s = sort_values kind True (\<lambda>kv. Some (snd kv)) s"

text \<open>\<^verbatim>\<open>sales_by_product\<close> draws the bar chart and the pie chart from the one
  variable \<^verbatim>\<open>grouped\<close>.\<close>

definition sales_by_product :: "argsort \<Rightarrow> dataset \<Rightarrow> chart list" where
  "sales_by_product kind df =
     (let grouped = series_sort_values kind (groupby_total_sum product_line df)
      in [Barh grouped, Pie grouped])"

definition sales_by_city :: "dataset \<Rightarrow> chart list" where
  "sales_by_city df = (let grouped = groupby_total_sum city df in [Pie grouped])"

definition gender_comparison :: "dataset \<Rightarrow> chart list" where
  "gender_comparison df = (let data = groupby_total_sum gender df in [Bar data])"

definition customer_type_breakdown :: "dataset \<Rightarrow> chart list" where
  "customer_type_breakdown df = (let data = groupby_total_sum customer_type df in [Bar data])"

definition payment_distribution :: "argsort \<Rightarrow> dataset \<Rightarrow> chart list" where
  "payment_distribution kind df =
     (let data = value_counts kind (map payment (rows df)) in [Pie data])"

subsection \<open>Correlation\<close>

text \<open>
  \<^verbatim>\<open>select_dtypes(include=np.number)\<close> keeps the numeric columns, in column order.
\<close>

definition numeric_columns :: "(string \<times> (row \<Rightarrow> real option)) list" where
  "numeric_columns =
     [(''unit_price'', unit_price), (''quantity'', quantity), (''tax'', tax),
      (''total'', total), (''cogs'', cogs),
      (''gross_margin_percentage'', gross_margin_percentage),
      (''gross_income'', gross_income), (''rating'', rating)]"

text \<open>
  \<^verbatim>\<open>DataFrame.corr()\<close>: Pearson's coefficient of two columns over the rows where both
  are present (\<^verbatim>\<open>min_periods=1\<close>); NaN when no such row exists or when the divisor
  \<open>sqrt (ssqdx * ssqdy)\<close> is 0. The arithmetic is that of the real numbers.
\<close>

definition complete_pairs :: "real option list \<Rightarrow> real option list \<Rightarrow> (real \<times> real) list" where
  "complete_pairs xs ys =
     List.map_filter
       (\<lambda>p. case p of (Some a, Some b) \<Rightarrow> Some (a, b) | _ \<Rightarrow> None) (zip xs ys)"

definition mean_of :: "real list \<Rightarrow> real" where
  "mean_of xs = sum_list xs / real (length xs)"

definition pearson :: "real option list \<Rightarrow> real option list \<Rightarrow> real option" where
  "pearson xs ys =
     (let ps = complete_pairs xs ys;
          nobs = length ps
      in if nobs < 1 then None
         else
           (let meanx = mean_of (map fst ps);
                meany = mean_of (map snd ps);
                covxy = (\<Sum>p\<leftarrow>ps. (fst p - meanx) * (snd p - meany));
                ssqdx = (\<Sum>p\<leftarrow>ps. (fst p - meanx) * (fst p - meanx));
                ssqdy = (\<Sum>p\<leftarrow>ps. (snd p - meany) * (snd p - meany));
                divisor = sqrt (ssqdx * ssqdy)
            in if divisor \<noteq> 0 then Some (covxy / divisor) else None))"

definition correlation_matrix :: "dataset \<Rightarrow> real option list list" where
  "correlation_matrix df =
     map (\<lambda>c1. map (\<lambda>c2. pearson (map (snd c1) (rows df)) (map (snd c2) (rows df)))
                 numeric_columns)
       numeric_columns"

text \<open>The sum of squared deviations of a column's present values from their mean.\<close>

definition ssqd :: "real option list \<Rightarrow> real" where
  "ssqd xs = (let vs = dropna xs in (\<Sum>v\<leftarrow>vs. (v - mean_of vs) * (v - mean_of vs)))"

subsection \<open>Title case\<close>

text \<open>
  Python's \<^verbatim>\<open>str.title()\<close> on ASCII text: a letter that follows a letter is
  lower-cased, any other letter is upper-cased, and every other character is kept and
  ends the word.
\<close>

definition is_lower :: "char \<Rightarrow> bool" where
  "is_lower c = (CHR ''a'' \<le> c \<and> c \<le> CHR ''z'')"

definition is_upper :: "char \<Rightarrow> bool" where
  "is_upper c = (CHR ''A'' \<le> c \<and> c \<le> CHR ''Z'')"

definition is_cased :: "char \<Rightarrow> bool" where
  "is_cased c = (is_lower c \<or> is_upper c)"

definition to_upper :: "char \<Rightarrow> char" where
  "to_upper c = (if is_lower c then char_of (of_char c - (32::nat)) else c)"

definition to_lower :: "char \<Rightarrow> char" where
  "to_lower c = (if is_upper c then char_of (of_char c + (32::nat)) else c)"

fun title_from :: "bool \<Rightarrow> string \<Rightarrow> string" where
  "title_from previous_is_cased [] = []"
| "title_from previous_is_cased (c # cs) =
     (if previous_is_cased then to_lower c else to_upper c) # title_from (is_cased c) cs"

definition title :: "string \<Rightarrow> string" where
  "title s = title_from False s"

subsection \<open>Quick insights\<close>

text \<open>
  \<^verbatim>\<open>self.df.sort_values('date', ascending=False).head(30)\<close>: KeyError when the frame
  has no \<open>date\<close> column.
\<close>

definition latest :: "argsort \<Rightarrow> dataset \<Rightarrow> error + row list" where
  "latest kind df =
     (if has_date df
      then Inr (take 30 (sort_values kind False (\<lambda>r. map_option real_of_int (date r)) (rows df)))
      else Inl KeyError)"

definition last_30_total :: "argsort \<Rightarrow> dataset \<Rightarrow> error + real" where
  "last_30_total kind df =
     (case latest kind df of Inl e \<Rightarrow> Inl e | Inr l \<Rightarrow> Inr (series_sum (map total l)))"

record insights =
  top_city :: string
  top_payment :: string
  top_product :: string
  top_product_sales :: "real option"
  last_30 :: real

text \<open>The statements of \<^verbatim>\<open>quick_insights\<close> in their order; the first that raises
  ends the method.\<close>

definition quick_insights :: "argsort \<Rightarrow> dataset \<Rightarrow> error + insights" where
  "quick_insights kind df =
     (case idxmax (groupby_total_sum city df) of Inl e \<Rightarrow> Inl e | Inr tc \<Rightarrow>
      (case idxmax (value_counts kind (map payment (rows df))) of Inl e \<Rightarrow> Inl e | Inr tp \<Rightarrow>
       (case idxmax (groupby_total_sum product_line df) of Inl e \<Rightarrow> Inl e | Inr tpr \<Rightarrow>
        (let tps = series_max (map snd (groupby_total_sum product_line df))
         in (case last_30_total kind df of Inl e \<Rightarrow> Inl e | Inr l30 \<Rightarrow>
               Inr \<lparr>top_city = tc, top_payment = tp, top_product = title tpr,
                    top_product_sales = tps, last_30 = l30\<rparr>)))))"

subsection \<open>Search\<close>

text \<open>What \<^verbatim>\<open>search_city_and_product\<close> shows: \<^verbatim>\<open>st.success\<close> with the name and the
  sum, or \<^verbatim>\<open>st.warning\<close> with its text.\<close>

datatype message =
  Success string real
| Warning string

text \<open>\<^verbatim>\<open>Series.str.title()\<close>: NaN stays NaN.\<close>

definition str_title :: "string option list \<Rightarrow> string option list" where
  "str_title vs = map (map_option title) vs"

text \<open>\<^verbatim>\<open>Series.unique()\<close>: the distinct values in order of first appearance.\<close>

definition unique :: "'a list \<Rightarrow> 'a list" where
  "unique vs = rev (remdups (rev vs))"

text \<open>
  The \<^verbatim>\<open>.str\<close> accessor of the column called \<open>name\<close>: pandas raises AttributeError
  unless the column holds text.
\<close>

definition str_accessor ::
  "string \<Rightarrow> (row \<Rightarrow> string option) \<Rightarrow> dataset \<Rightarrow> error + string option list" where
  "str_accessor name col df =
     (if name \<in> set (object_columns df) then Inr (map col (rows df)) else Inl AttributeError)"

text \<open>
  One of the two blocks of the method, for the column \<open>col\<close> called \<open>name\<close> and the
  entered text. The result is what the block has shown, and the exception that ended
  it, if one did.
\<close>

definition search_column ::
  "string \<Rightarrow> (row \<Rightarrow> string option) \<Rightarrow> string \<Rightarrow> string \<Rightarrow> dataset
     \<Rightarrow> message list \<times> error option" where
  "search_column name col not_found entered df =
     (let wanted = title entered
      in if wanted \<noteq> []
         then (case str_accessor name col df of
                 Inl e \<Rightarrow> ([], Some e)
               | Inr cells \<Rightarrow>
                   if isin (Some wanted) (unique (str_title cells))
                   then (let sub = filter (\<lambda>r. map_option title (col r) = Some wanted) (rows df)
                         in ([Success wanted (series_sum (map total sub))], None))
                   else ([Warning not_found], None))
         else ([], None))"

text \<open>The city block, then the product block unless the city block raised.\<close>

definition search_city_and_product ::
  "string \<Rightarrow> string \<Rightarrow> dataset \<Rightarrow> message list \<times> error option" where
  "search_city_and_product city_entered product_entered df =
     (case search_column ''city'' city ''City not found.'' city_entered df of
        (shown, Some e) \<Rightarrow> (shown, Some e)
      | (shown, None) \<Rightarrow>
          (case search_column ''product_line'' product_line ''Product not found.''
                  product_entered df of
             (shown', raised) \<Rightarrow> (shown @ shown', raised)))"

text \<open>Text made of ASCII characters only, on which \<open>title\<close> is Python's
  \<^verbatim>\<open>str.title()\<close>.\<close>

definition ascii_text :: "string \<Rightarrow> bool" where
  "ascii_text s = list_all (\<lambda>c. of_char c < (128::nat)) s"

section \<open>Example data\<close>

text \<open>A cash sale with the given city, product line, gender, total and date, every
  other cell empty.\<close>

definition sale :: "string \<Rightarrow> string \<Rightarrow> string \<Rightarrow> real \<Rightarrow> timestamp \<Rightarrow> row" where
  "sale c p g t d =
     \<lparr>invoice_id = [], branch = None, city = Some c, customer_type = None,
      gender = Some g, product_line = Some p, unit_price = None, quantity = None,
      tax = None, total = Some t, date = Some d, payment = Some ''Cash'', cogs = None,
      gross_margin_percentage = None, gross_income = None, rating = None\<rparr>"

text \<open>The columns of such rows that hold text.\<close>

definition sale_columns :: "string list" where
  "sale_columns = [''city'', ''gender'', ''product_line'', ''payment'']"

text \<open>The three rows of the specification's example.\<close>

definition example3 :: dataset where
  "example3 =
     \<lparr>rows = [sale ''Yangon'' ''Health'' ''Female'' 100 1,
              sale ''Mandalay'' ''Food'' ''Male'' 50 2,
              sale ''Yangon'' ''Food'' ''Female'' 25 3],
      has_date = True, object_columns = sale_columns\<rparr>"

text \<open>The specification's selection of the single city Mandalay, everything else allowed.\<close>

definition only_mandalay :: selection where
  "only_mandalay =
     \<lparr>start_date = 0, end_date = 5, city_filter = [Some ''Mandalay''],
      product_filter = [Some ''Food'', Some ''Health''],
      gender_filter = [Some ''Male'', Some ''Female'']\<rparr>"

text \<open>The state of \<^verbatim>\<open>main\<close> after \<^verbatim>\<open>load_data\<close>: one frame in the store, bound to
  \<^verbatim>\<open>df\<close>.\<close>

definition loaded_env :: env where
  "loaded_env = \<lparr>heap = [example3], df_var = 0, filtered_var = None\<rparr>"

text \<open>A frame whose product lines are not in ascending order of their sums.\<close>

definition food_first :: dataset where
  "food_first =
     \<lparr>rows = [sale ''Yangon'' ''Food'' ''Female'' 100 1,
              sale ''Mandalay'' ''Health'' ''Male'' 50 2],
      has_date = True, object_columns = sale_columns\<rparr>"

text \<open>Thirty-two rows of one and the same date; the first and the third have a total
  of 100, every other row a total of 1.\<close>

definition tied32 :: dataset where
  "tied32 =
     \<lparr>rows = [sale ''Yangon'' ''Food'' ''Female'' 100 1,
              sale ''Yangon'' ''Food'' ''Female'' 1 1,
              sale ''Yangon'' ''Food'' ''Female'' 100 1]
             @ replicate 29 (sale ''Yangon'' ''Food'' ''Female'' 1 1),
      has_date = True, object_columns = sale_columns\<rparr>"

text \<open>
  Four rows whose totals are float64 numbers: 1, 2 to the power 53, 1 and 1, the second
  row in a city of its own.
\<close>

definition rounding4 :: dataset where
  "rounding4 =
     \<lparr>rows = [sale ''Mandalay'' ''Food'' ''Female'' 1 1,
              sale ''Yangon'' ''Food'' ''Female'' 9007199254740992 2,
              sale ''Mandalay'' ''Food'' ''Female'' 1 3,
              sale ''Mandalay'' ''Food'' ''Female'' 1 4],
      has_date = True, object_columns = sale_columns\<rparr>"

text \<open>Three rows in ascending date order, the latest with a total of 2 to the power 53.\<close>

definition rounding3 :: dataset where
  "rounding3 =
     \<lparr>rows = [sale ''Yangon'' ''Food'' ''Female'' 1 1,
              sale ''Yangon'' ''Food'' ''Female'' 1 2,
              sale ''Yangon'' ''Food'' ''Female'' 9007199254740992 3],
      has_date = True, object_columns = sale_columns\<rparr>"

text \<open>A frame whose city column is empty, and so holds no text.\<close>

definition no_city_text :: dataset where
  "no_city_text =
     \<lparr>rows = [(sale ''Yangon'' ''Food'' ''Female'' 10 1)\<lparr>city := None\<rparr>],
      has_date = True, object_columns = [''gender'', ''product_line'', ''payment'']\<rparr>"

text \<open>A filtered frame without rows.\<close>

definition empty_frame :: dataset where
  "empty_frame = \<lparr>rows = [], has_date = True, object_columns = sale_columns\<rparr>"

text \<open>A frame as read from the file, with the text \<open>abc\<close> in a \<open>total\<close> cell, and
  converters that know the numbers and dates of the example.\<close>

definition raw_sale :: "string \<Rightarrow> string \<Rightarrow> string \<Rightarrow> string \<Rightarrow> raw_row" where
  "raw_sale i c t d =
     \<lparr>invoice_id = i, branch = None, city = Some c, customer_type = None,
      gender = None, product_line = None, unit_price = None, quantity = None,
      tax = None, total = Some t, date = Some d, payment = None, cogs = None,
      gross_margin_percentage = None, gross_income = None, rating = None\<rparr>"

definition raw_example :: "raw_row frame" where
  "raw_example =
     \<lparr>rows = [raw_sale ''1'' ''Yangon'' ''100'' ''1/5/2019'',
              raw_sale ''2'' ''Mandalay'' ''abc'' ''1/6/2019'',
              raw_sale ''3'' ''Yangon'' ''25'' ''1/7/2019''],
      has_date = True, object_columns = [''city'', ''total'', ''date'']\<rparr>"

definition numbers_example :: "string \<Rightarrow> real option" where
  "numbers_example s = map_of [(''100'', 100), (''50'', 50), (''25'', 25)] s"

definition dates_example :: "string \<Rightarrow> timestamp option" where
  "dates_example s =
     map_of [(''1/5/2019'', 17901), (''1/6/2019'', 17902), (''1/7/2019'', 17903)] s"

section \<open>Amounts that add up exactly\<close>

text \<open>
  Cells whose present values are whole numbers with magnitudes that add up to at most
  2 to the power 53. Every float64 sum of some of these cells, in any order, is exact.
\<close>

definition exact_amounts :: "real option list \<Rightarrow> bool" where
  "exact_amounts vs =
     ((\<forall>x\<in>set (dropna vs). x \<in> \<int>) \<and> (\<Sum>x\<leftarrow>dropna vs. \<bar>x\<bar>) \<le> 2 ^ 53)"

section \<open>The tail window as the specification words it\<close>

text \<open>
  The order that \<^verbatim>\<open>sort_values('date', ascending=False)\<close> establishes: a row comes
  before every row of an earlier or equal date, and rows without a date come last.
\<close>

definition recent_first :: "row \<Rightarrow> row \<Rightarrow> bool" where
  "recent_first a b =
     (case date b of None \<Rightarrow> True
      | Some y \<Rightarrow> (case date a of None \<Rightarrow> False | Some x \<Rightarrow> y \<le> x))"

text \<open>
  The specification's tail-window sum: the sum of \<open>total\<close> over the 30 most recent rows
  by date descending, rows of equal date in their original order (undated rows last).
\<close>

definition spec_tail_window :: "dataset \<Rightarrow> real" where
  "spec_tail_window df =
     (let dated = filter (\<lambda>r. date r \<noteq> None) (rows df);
          undated = filter (\<lambda>r. date r = None) (rows df);
          ordered = sort_key (\<lambda>r. case date r of None \<Rightarrow> 0 | Some d \<Rightarrow> - d) dated @ undated
      in series_sum (map total (take 30 ordered)))"

section \<open>Properties of the filter\<close>

lemma has_date_getitem_mask: "has_date (getitem_mask m df) = has_date df"
  by (simp add: getitem_mask_def)

lemma rows_getitem_mask: "rows (getitem_mask m df) = filter m (rows df)"
  by (simp add: getitem_mask_def)

lemma has_date_main_filter: "has_date (main_filter df s) = has_date df"
  by (simp add: main_filter_def Let_def has_date_getitem_mask)

lemma rows_main_filter:
  "rows (main_filter df s) =
     filter (\<lambda>r. category_mask s r \<and> (has_date df \<longrightarrow> date_mask s r)) (rows df)"
  by (auto simp: main_filter_def Let_def rows_getitem_mask intro: filter_cong)

text \<open>
  Claim C2: the filter step returns exactly the rows whose city, product line and gender
  are among the selected values and, when the frame has a date column, whose date lies
  in the inclusive range from start to end; the frame keeps its columns; and an empty
  selection list on any of the three dimensions gives a frame without rows.
\<close>

theorem main_filter_exact:
  "rows (main_filter df s) =
     filter (\<lambda>r. city r \<in> set (city_filter s) \<and> product_line r \<in> set (product_filter s)
                 \<and> gender r \<in> set (gender_filter s)
                 \<and> (has_date df \<longrightarrow>
                      (\<exists>d. date r = Some d \<and> start_date s \<le> d \<and> d \<le> end_date s)))
       (rows df)
   \<and> has_date (main_filter df s) = has_date df
   \<and> (city_filter s = [] \<or> product_filter s = [] \<or> gender_filter s = []
        \<longrightarrow> rows (main_filter df s) = [])"
proof -
  have m: "\<And>r. date_mask s r = (\<exists>d. date r = Some d \<and> start_date s \<le> d \<and> d \<le> end_date s)"
    by (simp add: date_mask_def split: option.splits)
  have 1: "rows (main_filter df s) =
     filter (\<lambda>r. city r \<in> set (city_filter s) \<and> product_line r \<in> set (product_filter s)
                 \<and> gender r \<in> set (gender_filter s)
                 \<and> (has_date df \<longrightarrow>
                      (\<exists>d. date r = Some d \<and> start_date s \<le> d \<and> d \<le> end_date s)))
       (rows df)"
    unfolding rows_main_filter by (rule filter_cong) (auto simp: category_mask_def isin_def m)
  have 2: "city_filter s = [] \<or> product_filter s = [] \<or> gender_filter s = []
        \<longrightarrow> rows (main_filter df s) = []"
    unfolding 1 by (auto simp: filter_empty_conv)
  show ?thesis using 1 2 has_date_main_filter by blast
qed

theorem main_filter_exact_witness:
  "rows (main_filter example3 only_mandalay) = [sale ''Mandalay'' ''Food'' ''Male'' 50 2]
   \<and> series_sum (map total (rows (main_filter example3 only_mandalay))) = 50
   \<and> groupby_total_sum product_line (main_filter example3 only_mandalay) = [(''Food'', 50)]
   \<and> rows (main_filter example3 (only_mandalay\<lparr>city_filter := []\<rparr>)) = []"
proof -
  have e: "city_filter (only_mandalay\<lparr>city_filter := []\<rparr>) = []" by simp
  have 4: "rows (main_filter example3 (only_mandalay\<lparr>city_filter := []\<rparr>)) = []"
    using main_filter_exact [of example3 "only_mandalay\<lparr>city_filter := []\<rparr>"] e by blast
  have 1: "rows (main_filter example3 only_mandalay) = [sale ''Mandalay'' ''Food'' ''Male'' 50 2]"
    by code_simp
  have 2: "series_sum (map total (rows (main_filter example3 only_mandalay))) = 50"
    by code_simp
  have 3: "groupby_total_sum product_line (main_filter example3 only_mandalay) = [(''Food'', 50)]"
    by code_simp
  show ?thesis using 1 2 3 4 by blast
qed

text \<open>
  Claim C9: filtering is idempotent. Filtering the filtered frame again with the same
  selection gives the filtered frame.
\<close>

theorem main_filter_idempotent: "main_filter (main_filter df s) s = main_filter df s"
proof -
  have "rows (main_filter (main_filter df s) s) = rows (main_filter df s)"
    unfolding rows_main_filter [of "main_filter df s"] has_date_main_filter
    unfolding rows_main_filter [of df] by (auto intro: filter_cong)
  moreover have "has_date (main_filter (main_filter df s) s) = has_date (main_filter df s)"
    by (simp add: has_date_main_filter)
  moreover have "object_columns (main_filter (main_filter df s) s)
                   = object_columns (main_filter df s)"
    by (simp add: main_filter_def getitem_mask_def Let_def)
  ultimately show ?thesis by (rule frame.equality) simp
qed

theorem main_filter_idempotent_witness:
  "main_filter (main_filter example3 only_mandalay) only_mandalay
     = \<lparr>rows = [sale ''Mandalay'' ''Food'' ''Male'' 50 2], has_date = True,
        object_columns = sale_columns\<rparr>"
proof -
  have "main_filter example3 only_mandalay
     = \<lparr>rows = [sale ''Mandalay'' ''Food'' ''Male'' 50 2], has_date = True,
        object_columns = sale_columns\<rparr>"
    by code_simp
  then show ?thesis using main_filter_idempotent [of example3 only_mandalay] by simp
qed

lemma subseq_rows_main_filter: "subseq (rows (main_filter df s)) (rows df)"
  unfolding rows_main_filter by (rule subseq_filter_left)

text \<open>
  Claim C8: filtering is non-destructive and keeps the order. Every object that was in
  the store before the filter step is unchanged after it, the filtered frame is a new
  object, and its rows are a subsequence of the rows of the frame the step started
  from (the same relative order).
\<close>

theorem main_filter_steps_frame:
  assumes "df_var e < length (heap e)"
  shows "take (length (heap e)) (heap (main_filter_steps e s)) = heap e
    \<and> (\<exists>a. filtered_var (main_filter_steps e s) = Some a
           \<and> length (heap e) \<le> a \<and> a < length (heap (main_filter_steps e s))
           \<and> heap (main_filter_steps e s) ! a = main_filter (heap e ! df_var e) s)
    \<and> subseq (rows (main_filter (heap e ! df_var e) s)) (rows (heap e ! df_var e))"
  using assms
  by (auto simp: main_filter_steps_def alloc_def Let_def main_filter_def nth_append
        subseq_rows_main_filter [unfolded main_filter_def Let_def, simplified])

theorem main_filter_steps_frame_witness:
  "take 1 (heap (main_filter_steps loaded_env only_mandalay)) = [example3]
   \<and> filtered_var (main_filter_steps loaded_env only_mandalay) = Some 2
   \<and> rows (heap (main_filter_steps loaded_env only_mandalay) ! 2)
       = [sale ''Mandalay'' ''Food'' ''Male'' 50 2]
   \<and> subseq [sale ''Mandalay'' ''Food'' ''Male'' 50 2] (rows example3)"
proof -
  have h: "df_var loaded_env < length (heap loaded_env)"
    by (simp add: loaded_env_def)
  have m: "rows (main_filter example3 only_mandalay) = [sale ''Mandalay'' ''Food'' ''Male'' 50 2]"
    by code_simp
  have f: "filtered_var (main_filter_steps loaded_env only_mandalay) = Some 2"
    by code_simp
  have l: "length (heap loaded_env) = 1" "heap loaded_env ! df_var loaded_env = example3"
    "heap loaded_env = [example3]"
    by (simp_all add: loaded_env_def)
  show ?thesis
    using main_filter_steps_frame [OF h, of only_mandalay] m f l by auto
qed

section \<open>Properties of the aggregations\<close>

lemma dropna_simps [simp]:
  "dropna [] = []"
  "dropna (None # vs) = dropna vs"
  "dropna (Some x # vs) = x # dropna vs"
  by (simp_all add: dropna_def List.map_filter_simps)

lemma set_dropna: "set (dropna vs) = {x. Some x \<in> set vs}"
  by (induction vs) (auto split: option.splits simp: dropna_def List.map_filter_simps)

lemma dropna_append: "dropna (xs @ ys) = dropna xs @ dropna ys"
proof (induction xs)
  case Nil show ?case by simp
next
  case (Cons x xs) then show ?case by (cases x) simp_all
qed

lemma series_sum_Nil [simp]: "series_sum [] = 0"
  by (simp add: series_sum_def)

lemma sum_list_dropna:
  "(\<Sum>x\<leftarrow>dropna vs. f x) = (\<Sum>v\<leftarrow>vs. case v of None \<Rightarrow> 0 | Some x \<Rightarrow> (f x :: real))"
proof (induction vs)
  case Nil show ?case by simp
next
  case (Cons v vs) then show ?case by (cases v) simp_all
qed

subsection \<open>Exact float64 additions\<close>

declare scale_down.simps [simp del] scale_up.simps [simp del]

lemma scale_down_pow:
  "2 ^ k \<le> a \<Longrightarrow> a < 2 ^ Suc k \<Longrightarrow> scale_down a u = u * 2 ^ k"
proof (induction k arbitrary: a u)
  case 0
  then show ?case by (simp add: scale_down.simps)
next
  case (Suc k)
  have a2: "2 \<le> a"
  proof -
    have p: "(1::real) \<le> 2 ^ k" by simp
    have "2 * 2 ^ k \<le> a" using Suc.prems(1) by simp
    with p show ?thesis by linarith
  qed
  have "scale_down (a / 2) (u * 2) = u * 2 * 2 ^ k"
    using Suc.prems by (intro Suc.IH) auto
  then show ?case using a2 by (subst scale_down.simps) simp
qed

lemma binade_pow:
  "2 ^ k \<le> a \<Longrightarrow> a < 2 ^ Suc k \<Longrightarrow> binade a = 2 ^ k"
proof -
  assume a: "2 ^ k \<le> a" "a < 2 ^ Suc k"
  have "(1::real) \<le> 2 ^ k" by simp
  then have "\<not> a < 1" using a(1) by linarith
  then show ?thesis using scale_down_pow [OF a, of 1] by (simp add: binade_def)
qed

lemma round_half_even_of_int [simp]: "round_half_even (of_int m) = m"
  by (simp add: round_half_even_def)

text \<open>A whole number of magnitude up to 2 to the power 53 is a float64 number.\<close>

lemma f64_round_int:
  assumes "x \<in> \<int>" and "\<bar>x\<bar> \<le> 2 ^ 53"
  shows "f64_round x = x"
proof (cases "x = 0")
  case True
  then show ?thesis by (simp add: f64_round_def)
next
  case False
  obtain z :: int where z: "x = of_int z" using assms(1) by (auto elim: Ints_cases)
  define m where "m = nat \<bar>z\<bar>"
  have m1: "1 \<le> m" using False z by (simp add: m_def)
  have ax: "\<bar>x\<bar> = real m" by (simp add: z m_def)
  obtain k where k: "2 ^ k \<le> m" "m < 2 ^ (k + 1)"
    using ex_power_ivl1 [of 2 m] m1 by auto
  have mle: "m \<le> 2 ^ 53"
    using assms(2) ax by (metis of_nat_le_iff of_nat_numeral of_nat_power)
  have k53: "k \<le> 53"
  proof (rule ccontr)
    assume "\<not> k \<le> 53"
    then have "54 \<le> k" by simp
    then have "(2::nat) ^ 54 \<le> 2 ^ k" by (intro power_increasing) auto
    then show False using k(1) mle by simp
  qed
  have rk: "2 ^ k \<le> \<bar>x\<bar>" "\<bar>x\<bar> < 2 ^ Suc k"
    using k unfolding ax
    by (metis of_nat_le_iff of_nat_numeral of_nat_power,
        metis Suc_eq_plus1 of_nat_less_iff of_nat_numeral of_nat_power)
  have u: "f64_ulp x = 2 ^ k / 2 ^ 52"
    unfolding f64_ulp_def using binade_pow [OF rk] by simp
  have "\<exists>q::int. x / f64_ulp x = of_int q"
  proof (cases "k \<le> 52")
    case True
    have "(2::real) ^ (52 - k) = 2 ^ 52 / 2 ^ k"
      using True by (intro power_diff) auto
    moreover have "x / f64_ulp x = x * 2 ^ 52 / 2 ^ k"
      by (simp only: u divide_divide_eq_right)
    ultimately have "x / f64_ulp x = of_int (z * 2 ^ (52 - k))"
      unfolding z by (simp only: of_int_mult of_int_power of_int_numeral times_divide_eq_right)
    then show ?thesis by blast
  next
    case False
    then have k: "k = 53" using k53 by simp
    have "\<bar>x\<bar> = 2 ^ 53" using rk(1) assms(2) k by simp
    then have "x = 2 ^ 53 \<or> x = - (2 ^ 53)" by linarith
    then have "x / f64_ulp x = of_int (2 ^ 52) \<or> x / f64_ulp x = of_int (- (2 ^ 52))"
      unfolding u k by auto
    then show ?thesis by blast
  qed
  then obtain q :: int where q: "x / f64_ulp x = of_int q" by blast
  have up: "f64_ulp x \<noteq> 0" unfolding u by simp
  have "f64_round x = of_int q * f64_ulp x"
    using False by (simp add: f64_round_def q)
  also have "\<dots> = x" using q up by (metis nonzero_eq_divide_eq)
  finally show ?thesis .
qed

text \<open>The same rounding, with the whole numbers of that range decided first; this is
  the equation used to evaluate sums of whole amounts.\<close>

lemma f64_round_code [code]:
  "f64_round x =
     (if of_int \<lfloor>x\<rfloor> = x \<and> \<bar>x\<bar> \<le> 2 ^ 53 then x
      else if x = 0 then 0 else of_int (round_half_even (x / f64_ulp x)) * f64_ulp x)"
proof (cases "of_int \<lfloor>x\<rfloor> = x \<and> \<bar>x\<bar> \<le> 2 ^ 53")
  case True
  then have "x \<in> \<int>" by (metis Ints_of_int)
  then show ?thesis using True by (simp add: f64_round_int)
next
  case False
  then show ?thesis by (auto simp: f64_round_def)
qed

lemma f64_add_int:
  "x \<in> \<int> \<Longrightarrow> y \<in> \<int> \<Longrightarrow> \<bar>x + y\<bar> \<le> 2 ^ 53 \<Longrightarrow> f64_add x y = x + y"
  by (simp add: f64_add_def f64_round_int)

lemma foldl_f64_add_exact:
  assumes "\<forall>x\<in>set xs. x \<in> \<int>" and "acc \<in> \<int>"
    and "\<bar>acc\<bar> + (\<Sum>x\<leftarrow>xs. \<bar>x\<bar>) \<le> 2 ^ 53"
  shows "foldl f64_add acc xs = acc + sum_list xs"
  using assms
proof (induction xs arbitrary: acc)
  case Nil
  then show ?case by simp
next
  case (Cons x xs)
  have i: "acc + x \<in> \<int>" using Cons.prems by simp
  have nn: "0 \<le> (\<Sum>x\<leftarrow>xs. \<bar>x\<bar>)" by (rule sum_list_nonneg) auto
  have b: "\<bar>acc + x\<bar> + (\<Sum>x\<leftarrow>xs. \<bar>x\<bar>) \<le> 2 ^ 53"
    using Cons.prems(3) by simp
  then have "\<bar>acc + x\<bar> \<le> 2 ^ 53" using nn by linarith
  then have e: "f64_add acc x = acc + x"
    using Cons.prems by (intro f64_add_int) auto
  have "foldl f64_add (acc + x) xs = (acc + x) + sum_list xs"
    using Cons.prems(1) i b by (intro Cons.IH) auto
  then show ?case by (simp add: e)
qed

lemma series_sum_exact:
  assumes "exact_amounts vs"
  shows "series_sum vs = (\<Sum>v\<leftarrow>vs. case v of None \<Rightarrow> 0 | Some x \<Rightarrow> x)"
proof -
  have "foldl f64_add 0 (dropna vs) = 0 + sum_list (dropna vs)"
    using assms by (intro foldl_f64_add_exact) (auto simp: exact_amounts_def)
  then show ?thesis
    using sum_list_dropna [of "\<lambda>x. x" vs] by (simp add: series_sum_def)
qed

text \<open>The characterisation of \<open>exact_amounts\<close> cell by cell.\<close>

lemma exact_amounts_iff:
  "exact_amounts vs =
     ((\<forall>x. Some x \<in> set vs \<longrightarrow> x \<in> \<int>)
      \<and> (\<Sum>v\<leftarrow>vs. case v of None \<Rightarrow> 0 | Some x \<Rightarrow> \<bar>x\<bar>) \<le> 2 ^ 53)"
  by (simp add: exact_amounts_def set_dropna sum_list_dropna)

lemma distinct_group_keys: "distinct (group_keys col df)"
  by (simp add: group_keys_def)

lemma sorted_group_keys: "sorted (group_keys col df)"
  by (simp add: group_keys_def)

lemma set_group_keys: "set (group_keys col df) = {k. \<exists>r\<in>set (rows df). col r = Some k}"
  by (force simp: group_keys_def set_dropna)

lemma map_fst_groupby: "map fst (groupby_total_sum col df) = group_keys col df"
  by (simp add: groupby_total_sum_def comp_def)

lemma sum_list_single_key:
  "distinct ks \<Longrightarrow> (\<Sum>k\<leftarrow>ks. if c = Some k then (v::real) else 0) = (if \<exists>k\<in>set ks. c = Some k then v else 0)"
  by (induction ks) auto

lemma sum_groups:
  fixes f :: "'r \<Rightarrow> real"
  assumes "distinct ks" and "\<forall>r\<in>set rs. \<exists>k\<in>set ks. col r = Some k"
  shows "(\<Sum>k\<leftarrow>ks. \<Sum>r\<leftarrow>filter (\<lambda>r. col r = Some k) rs. f r) = (\<Sum>r\<leftarrow>rs. f r)"
  using assms(2)
proof (induction rs)
  case Nil
  show ?case by simp
next
  case (Cons r rs)
  have "(\<Sum>k\<leftarrow>ks. \<Sum>r\<leftarrow>filter (\<lambda>r. col r = Some k) (r # rs). f r)
      = (\<Sum>k\<leftarrow>ks. (if col r = Some k then f r else 0) + (\<Sum>r\<leftarrow>filter (\<lambda>r. col r = Some k) rs. f r))"
    by (rule arg_cong [where f = sum_list]) (rule map_cong, auto)
  also have "\<dots> = (\<Sum>k\<leftarrow>ks. if col r = Some k then f r else 0)
                  + (\<Sum>k\<leftarrow>ks. \<Sum>r\<leftarrow>filter (\<lambda>r. col r = Some k) rs. f r)"
    by (simp add: sum_list_addf)
  also have "(\<Sum>k\<leftarrow>ks. if col r = Some k then f r else 0) = f r"
    using Cons.prems assms(1) by (simp add: sum_list_single_key)
  also have "(\<Sum>k\<leftarrow>ks. \<Sum>r\<leftarrow>filter (\<lambda>r. col r = Some k) rs. f r) = (\<Sum>r\<leftarrow>rs. f r)"
    using Cons by simp
  finally show ?case by simp
qed

lemma exact_amounts_filter:
  assumes "exact_amounts (map f rs)"
  shows "exact_amounts (map f (filter P rs))"
proof -
  have "(\<Sum>r\<leftarrow>filter P rs. case f r of None \<Rightarrow> 0 | Some x \<Rightarrow> \<bar>x\<bar>)
          \<le> (\<Sum>r\<leftarrow>rs. case f r of None \<Rightarrow> 0 | Some x \<Rightarrow> \<bar>x::real\<bar>)"
  proof (induction rs)
    case Nil show ?case by simp
  next
    case (Cons r rs)
    have "0 \<le> (case f r of None \<Rightarrow> 0 | Some x \<Rightarrow> \<bar>x\<bar>)" by (cases "f r") simp_all
    then show ?case using Cons by simp
  qed
  then show ?thesis
    using assms by (auto simp: exact_amounts_iff comp_def)
qed

text \<open>The sums of the groups are themselves cells that add up exactly.\<close>

lemma exact_group_sums:
  assumes "distinct ks" and "\<forall>r\<in>set rs. \<exists>k\<in>set ks. col r = Some k"
    and "exact_amounts (map f rs)"
  shows "exact_amounts
           (map (\<lambda>k. Some (\<Sum>r\<leftarrow>filter (\<lambda>r. col r = Some k) rs.
                              case f r of None \<Rightarrow> 0 | Some x \<Rightarrow> x)) ks)"
proof -
  let ?v = "\<lambda>r. case f r of None \<Rightarrow> 0 | Some x \<Rightarrow> (x::real)"
  let ?a = "\<lambda>r. case f r of None \<Rightarrow> 0 | Some x \<Rightarrow> \<bar>x::real\<bar>"
  have ints: "?v r \<in> \<int>" if "r \<in> set rs" for r
  proof (cases "f r")
    case None
    then show ?thesis by simp
  next
    case (Some a)
    then have "Some a \<in> set (map f rs)" using that by force
    then show ?thesis using assms(3) Some by (simp add: exact_amounts_iff)
  qed
  have gi: "(\<Sum>r\<leftarrow>filter P rs. ?v r) \<in> \<int>" for P
    using ints by (induction rs) auto
  have abs_v: "\<bar>?v r\<bar> = ?a r" for r by (cases "f r") simp_all
  have "(\<Sum>k\<leftarrow>ks. \<bar>\<Sum>r\<leftarrow>filter (\<lambda>r. col r = Some k) rs. ?v r\<bar>)
          \<le> (\<Sum>k\<leftarrow>ks. \<Sum>r\<leftarrow>filter (\<lambda>r. col r = Some k) rs. ?a r)"
  proof (rule sum_list_mono)
    fix k
    have "\<bar>\<Sum>r\<leftarrow>filter (\<lambda>r. col r = Some k) rs. ?v r\<bar>
            \<le> (\<Sum>r\<leftarrow>filter (\<lambda>r. col r = Some k) rs. \<bar>?v r\<bar>)"
      using sum_list_abs [of "map ?v (filter (\<lambda>r. col r = Some k) rs)"]
      by (simp add: comp_def)
    then show "\<bar>\<Sum>r\<leftarrow>filter (\<lambda>r. col r = Some k) rs. ?v r\<bar>
            \<le> (\<Sum>r\<leftarrow>filter (\<lambda>r. col r = Some k) rs. ?a r)"
      by (simp add: abs_v)
  qed
  also have "\<dots> = (\<Sum>r\<leftarrow>rs. ?a r)"
    using assms(1,2) by (rule sum_groups)
  also have "\<dots> \<le> 2 ^ 53"
    using assms(3) by (simp add: exact_amounts_iff comp_def)
  finally have "(\<Sum>k\<leftarrow>ks. \<bar>\<Sum>r\<leftarrow>filter (\<lambda>r. col r = Some k) rs. ?v r\<bar>) \<le> 2 ^ 53" .
  then show ?thesis
    using gi by (auto simp: exact_amounts_iff comp_def)
qed

text \<open>
  Claim C7, as the code has it: for a grouping column without missing values, when the
  present totals are whole numbers whose magnitudes add up to at most 2 to the power
  53 (so that no float64 addition rounds), the sum of the per-category sums of
  \<open>total\<close> equals the sum of \<open>total\<close> over the whole filtered frame. On the three-row
  example the sums by city are 125 for Yangon and 50 for Mandalay, together the full
  175, and the top city is Yangon.
\<close>

theorem grouped_sums_add_up:
  assumes "\<forall>r\<in>set (rows df). col r \<noteq> None"
    and "exact_amounts (map total (rows df))"
  shows "series_sum (map (\<lambda>kv. Some (snd kv)) (groupby_total_sum col df))
           = series_sum (map total (rows df))"
proof -
  let ?v = "\<lambda>r::row. case total r of None \<Rightarrow> 0 | Some x \<Rightarrow> x"
  let ?g = "\<lambda>k. \<Sum>r\<leftarrow>filter (\<lambda>r. col r = Some k) (rows df). ?v r"
  have cover: "\<forall>r\<in>set (rows df). \<exists>k\<in>set (group_keys col df). col r = Some k"
    using assms(1) by (fastforce simp: set_group_keys)
  have group: "series_sum (map total (filter (\<lambda>r. col r = Some k) (rows df))) = ?g k" for k
    using exact_amounts_filter [OF assms(2)] by (simp add: series_sum_exact comp_def)
  have grouped: "map (\<lambda>kv. Some (snd kv)) (groupby_total_sum col df)
                   = map (\<lambda>k. Some (?g k)) (group_keys col df)"
    by (simp add: groupby_total_sum_def comp_def group)
  have "exact_amounts (map (\<lambda>k. Some (?g k)) (group_keys col df))"
    using distinct_group_keys cover assms(2) by (rule exact_group_sums)
  then have "series_sum (map (\<lambda>kv. Some (snd kv)) (groupby_total_sum col df))
               = (\<Sum>k\<leftarrow>group_keys col df. ?g k)"
    unfolding grouped by (simp add: series_sum_exact comp_def)
  also have "\<dots> = (\<Sum>r\<leftarrow>rows df. ?v r)"
    using distinct_group_keys cover by (rule sum_groups)
  also have "\<dots> = series_sum (map total (rows df))"
    using assms(2) by (simp add: series_sum_exact comp_def)
  finally show ?thesis .
qed

lemma exact_amounts_example3: "exact_amounts (map total (rows example3))"
  by (simp add: exact_amounts_def example3_def sale_def)

theorem grouped_sums_add_up_witness:
  "groupby_total_sum city example3 = [(''Mandalay'', 50), (''Yangon'', 125)]
   \<and> series_sum (map (\<lambda>kv. Some (snd kv)) (groupby_total_sum city example3)) = 175
   \<and> series_sum (map total (rows example3)) = 175
   \<and> idxmax (groupby_total_sum city example3) = Inr ''Yangon''
   \<and> map_sum id top_city (quick_insights stable_argsort example3) = Inr ''Yangon''"
proof -
  have h: "\<forall>r\<in>set (rows example3). city r \<noteq> None"
    by (simp add: example3_def sale_def)
  have "series_sum (map total (rows example3))
          = (\<Sum>v\<leftarrow>map total (rows example3). case v of None \<Rightarrow> 0 | Some x \<Rightarrow> x)"
    by (rule series_sum_exact [OF exact_amounts_example3])
  also have "\<dots> = 175" by (simp add: example3_def sale_def)
  finally have 2: "series_sum (map total (rows example3)) = 175" .
  have 1: "groupby_total_sum city example3 = [(''Mandalay'', 50), (''Yangon'', 125)]"
    by code_simp
  have 3: "idxmax (groupby_total_sum city example3) = Inr ''Yangon''"
    unfolding 1 by simp
  have 4: "map_sum id top_city (quick_insights stable_argsort example3) = Inr ''Yangon''"
    by code_simp
  have "series_sum (map (\<lambda>kv. Some (snd kv)) (groupby_total_sum city example3)) = 175"
    using grouped_sums_add_up [OF h exact_amounts_example3] 2 by simp
  with 1 2 3 4 show ?thesis by blast
qed

text \<open>
  With float64 totals the two sums can differ: in \<open>rounding4\<close> every row has a city,
  the sum of \<open>total\<close> over the frame is 2 to the power 53, and the sums by city, 3
  and 2 to the power 53, add up to 4 more.
\<close>

theorem grouped_sums_rounding_counterexample:
  "map city (rows rounding4)
     = [Some ''Mandalay'', Some ''Yangon'', Some ''Mandalay'', Some ''Mandalay'']
   \<and> series_sum (map total (rows rounding4)) = 9007199254740992
   \<and> groupby_total_sum city rounding4 = [(''Mandalay'', 3), (''Yangon'', 9007199254740992)]
   \<and> series_sum (map (\<lambda>kv. Some (snd kv)) (groupby_total_sum city rounding4))
       = 9007199254740996"
proof -
  have 0: "map city (rows rounding4)
     = [Some ''Mandalay'', Some ''Yangon'', Some ''Mandalay'', Some ''Mandalay'']"
    by (simp add: rounding4_def sale_def)
  have 1: "series_sum (map total (rows rounding4)) = 9007199254740992"
    by (simp add: rounding4_def sale_def series_sum_def f64_add_def f64_round_def
          f64_ulp_def binade_def scale_down.simps round_half_even_def Let_def)
  have k: "group_keys city rounding4 = [''Mandalay'', ''Yangon'']"
    by code_simp
  have 2: "groupby_total_sum city rounding4
             = [(''Mandalay'', 3), (''Yangon'', 9007199254740992)]"
    unfolding groupby_total_sum_def k
    by (simp add: rounding4_def sale_def series_sum_def f64_add_def f64_round_def
          f64_ulp_def binade_def scale_down.simps round_half_even_def Let_def)
  have 3: "series_sum (map (\<lambda>kv. Some (snd kv)) (groupby_total_sum city rounding4))
       = 9007199254740996"
    unfolding 2
    by (simp add: series_sum_def f64_add_def f64_round_def
          f64_ulp_def binade_def scale_down.simps round_half_even_def Let_def)
  show ?thesis using 0 1 2 3 by blast
qed

section \<open>Properties of sorting\<close>

lemma argsort_ok_stable: "argsort_ok stable_argsort"
  by (simp add: argsort_ok_def stable_argsort_def)

lemma sorted_rev_of_neg:
  fixes ys :: "'a list" and g :: "'a \<Rightarrow> real"
  assumes "sorted (map (\<lambda>i. - g i) ys)"
  shows "sorted (map g (rev ys))"
proof -
  have "sorted_wrt (\<lambda>x y. g y \<le> g x) ys"
    using assms by (simp add: sorted_map)
  then show ?thesis
    by (simp add: sorted_map sorted_wrt_rev)
qed

lemma argsort_ok_reversing: "argsort_ok reversing_argsort"
  unfolding argsort_ok_def reversing_argsort_def
proof (intro allI conjI)
  fix xs :: "real list"
  show "mset (rev (sort_key (\<lambda>i. - xs ! i) [0..<length xs])) = mset [0..<length xs]"
    by simp
  have "sorted (map (\<lambda>i. - xs ! i) (sort_key (\<lambda>i. - xs ! i) [0..<length xs]))"
    by (rule sorted_sort_key)
  then show "sorted (map ((!) xs) (rev (sort_key (\<lambda>i. - xs ! i) [0..<length xs])))"
    by (rule sorted_rev_of_neg)
qed

lemma argsort_ok_mset: "argsort_ok kind \<Longrightarrow> mset (kind xs) = mset [0..<length xs]"
  by (simp add: argsort_ok_def)

lemma argsort_ok_sorted: "argsort_ok kind \<Longrightarrow> sorted (map (\<lambda>i. xs ! i) (kind xs))"
  by (simp add: argsort_ok_def)

lemma argsort_ok_set: "argsort_ok kind \<Longrightarrow> set (kind xs) = {0..<length xs}"
  using argsort_ok_mset [of kind xs] mset_eq_setD by fastforce

lemma argsort_ok_length: "argsort_ok kind \<Longrightarrow> length (kind xs) = length xs"
  using argsort_ok_mset [of kind xs] mset_eq_length by fastforce

text \<open>Reading a list at the positions of a permutation of its indices permutes it.\<close>

lemma mset_map_nth_perm:
  assumes "mset p = mset [0..<length xs]"
  shows "mset (map (\<lambda>i. xs ! i) p) = mset xs"
proof -
  have "mset (map (\<lambda>i. xs ! i) p) = image_mset (\<lambda>i. xs ! i) (mset p)" by simp
  also have "\<dots> = image_mset (\<lambda>i. xs ! i) (mset [0..<length xs])" using assms by simp
  also have "\<dots> = mset (map (\<lambda>i. xs ! i) [0..<length xs])" by simp
  also have "\<dots> = mset xs" by (simp add: map_nth)
  finally show ?thesis .
qed

lemma mset_partition_idx:
  "mset (filter P xs) + mset (filter (\<lambda>i. \<not> P i) xs) = mset xs"
  by (induction xs) auto

lemma mset_nargsort:
  assumes "argsort_ok kind"
  shows "mset (nargsort kind asc items) = mset [0..<length items]"
proof -
  define idx where "idx = [0..<length items]"
  define nn where "nn = filter (\<lambda>i. items ! i \<noteq> None) idx"
  define na where "na = filter (\<lambda>i. items ! i = None) idx"
  define nn' where "nn' = (if asc then nn else rev nn)"
  define vals where "vals = map (\<lambda>i. the (items ! i)) nn'"
  define indexer where "indexer = map (\<lambda>j. nn' ! j) (kind vals)"
  have n: "nargsort kind asc items = (if asc then indexer else rev indexer) @ na"
    by (simp add: nargsort_def Let_def idx_def nn_def na_def nn'_def vals_def indexer_def)
  have "mset (kind vals) = mset [0..<length nn']"
    using argsort_ok_mset [OF assms, of vals] by (simp add: vals_def)
  then have "mset indexer = mset nn'"
    unfolding indexer_def by (rule mset_map_nth_perm)
  then have "mset indexer = mset nn" by (simp add: nn'_def)
  moreover have "mset nn + mset na = mset idx"
    using mset_partition_idx [of "\<lambda>i. items ! i \<noteq> None" idx] by (simp add: nn_def na_def)
  ultimately show ?thesis by (simp add: n idx_def)
qed

lemma mset_sort_values:
  assumes "argsort_ok kind"
  shows "mset (sort_values kind asc key rs) = mset rs"
  unfolding sort_values_def
  using mset_nargsort [OF assms, of asc "map key rs"]
  by (intro mset_map_nth_perm) simp

lemma length_sort_values:
  "argsort_ok kind \<Longrightarrow> length (sort_values kind asc key rs) = length rs"
  using mset_sort_values [of kind asc key rs] mset_eq_length by fastforce

text \<open>The keys along the result of \<open>nargsort\<close>: present keys in kernel order, then NaN.\<close>

lemma keys_nargsort:
  assumes "argsort_ok kind"
  shows "\<exists>vs. sorted vs
           \<and> map (\<lambda>i. items ! i) (nargsort kind asc items)
               = map Some (if asc then vs else rev vs) @ replicate (length (filter (\<lambda>v. v = None) items)) None"
proof -
  define idx where "idx = [0..<length items]"
  define nn where "nn = filter (\<lambda>i. items ! i \<noteq> None) idx"
  define na where "na = filter (\<lambda>i. items ! i = None) idx"
  define nn' where "nn' = (if asc then nn else rev nn)"
  define vals where "vals = map (\<lambda>i. the (items ! i)) nn'"
  define indexer where "indexer = map (\<lambda>j. nn' ! j) (kind vals)"
  define vs where "vs = map (\<lambda>j. vals ! j) (kind vals)"
  have n: "nargsort kind asc items = (if asc then indexer else rev indexer) @ na"
    by (simp add: nargsort_def Let_def idx_def nn_def na_def nn'_def vals_def indexer_def)
  have s: "sorted vs"
    unfolding vs_def by (rule argsort_ok_sorted [OF assms])
  have present: "\<forall>i\<in>set nn'. items ! i \<noteq> None"
    by (auto simp: nn'_def nn_def)
  have rng: "\<forall>j\<in>set (kind vals). j < length nn'"
    using argsort_ok_set [OF assms, of vals] by (simp add: vals_def)
  have "map (\<lambda>i. items ! i) indexer = map Some vs"
  proof -
    have "items ! (nn' ! j) = Some (vals ! j)" if "j \<in> set (kind vals)" for j
    proof -
      have j: "j < length nn'" using rng that by blast
      then have "nn' ! j \<in> set nn'" by simp
      then obtain y where "items ! (nn' ! j) = Some y" using present by blast
      then show ?thesis using j by (simp add: vals_def)
    qed
    then show ?thesis by (simp add: indexer_def vs_def)
  qed
  then have 1: "map (\<lambda>i. items ! i) (if asc then indexer else rev indexer)
                  = map Some (if asc then vs else rev vs)"
    by (simp add: rev_map [symmetric])
  have "map (\<lambda>i. items ! i) na = replicate (length na) None"
    by (auto simp: na_def map_replicate_const [symmetric] intro: map_cong)
  moreover have "length na = length (filter (\<lambda>v. v = None) items)"
  proof -
    have "filter (\<lambda>v. v = None) items = filter (\<lambda>v. v = None) (map (\<lambda>i. items ! i) idx)"
      by (simp add: idx_def map_nth)
    also have "\<dots> = map (\<lambda>i. items ! i) na"
      by (simp add: filter_map comp_def na_def)
    finally show ?thesis by simp
  qed
  ultimately have 2: "map (\<lambda>i. items ! i) na
      = replicate (length (filter (\<lambda>v. v = None) items)) None" by simp
  show ?thesis using s 1 2 n by auto
qed

lemma set_nargsort: "argsort_ok kind \<Longrightarrow> set (nargsort kind asc items) = {0..<length items}"
  using mset_nargsort [of kind asc items] mset_eq_setD by fastforce

lemma keys_sort_values:
  assumes "argsort_ok kind"
  shows "\<exists>vs. sorted vs
           \<and> map key (sort_values kind asc key rs)
               = map Some (if asc then vs else rev vs)
                 @ replicate (length (filter (\<lambda>v. v = None) (map key rs))) None"
proof -
  have "map key (sort_values kind asc key rs)
      = map (\<lambda>i. map key rs ! i) (nargsort kind asc (map key rs))"
    using set_nargsort [OF assms, of asc "map key rs"] by (simp add: sort_values_def)
  then show ?thesis
    using keys_nargsort [OF assms, of "map key rs" asc] by simp
qed

lemma exact_amounts_mset:
  assumes "mset xs = mset ys" and "exact_amounts (map f ys)"
  shows "exact_amounts (map f xs)"
proof -
  have "sum_list (map (\<lambda>x. case f x of None \<Rightarrow> 0 | Some v \<Rightarrow> \<bar>v::real\<bar>) xs)
      = sum_mset (image_mset (\<lambda>x. case f x of None \<Rightarrow> 0 | Some v \<Rightarrow> \<bar>v\<bar>) (mset xs))"
    by (metis mset_map sum_mset_sum_list)
  also have "\<dots> = sum_list (map (\<lambda>x. case f x of None \<Rightarrow> 0 | Some v \<Rightarrow> \<bar>v\<bar>) ys)"
    unfolding assms(1) by (metis mset_map sum_mset_sum_list)
  finally have "sum_list (map (\<lambda>x. case f x of None \<Rightarrow> 0 | Some v \<Rightarrow> \<bar>v::real\<bar>) xs)
      = sum_list (map (\<lambda>x. case f x of None \<Rightarrow> 0 | Some v \<Rightarrow> \<bar>v\<bar>) ys)" .
  moreover have "set xs = set ys" using assms(1) by (rule mset_eq_setD)
  ultimately show ?thesis using assms(2) by (simp add: exact_amounts_iff comp_def)
qed

text \<open>Cells that add up exactly have the same sum in every order.\<close>

lemma series_sum_mset:
  assumes "mset xs = mset ys" and "exact_amounts (map f ys)"
  shows "series_sum (map f xs) = series_sum (map f ys)"
proof -
  have "sum_list (map (\<lambda>x. case f x of None \<Rightarrow> 0 | Some v \<Rightarrow> v) xs)
      = sum_mset (image_mset (\<lambda>x. case f x of None \<Rightarrow> 0 | Some v \<Rightarrow> v) (mset xs))"
    by (metis mset_map sum_mset_sum_list)
  also have "\<dots> = sum_list (map (\<lambda>x. case f x of None \<Rightarrow> 0 | Some v \<Rightarrow> v) ys)"
    unfolding assms(1) by (metis mset_map sum_mset_sum_list)
  finally show ?thesis
    using assms(2) exact_amounts_mset [OF assms]
    by (simp add: series_sum_exact comp_def)
qed

lemma sorted_wrt_recent_first:
  assumes "argsort_ok kind"
  shows "sorted_wrt recent_first
           (sort_values kind False (\<lambda>r. map_option real_of_int (date r)) rs)"
proof -
  let ?key = "\<lambda>r::row. map_option real_of_int (date r)"
  let ?out = "sort_values kind False ?key rs"
  define ord :: "real option \<Rightarrow> real option \<Rightarrow> bool" where
    "ord = (\<lambda>a b. case b of None \<Rightarrow> True
                  | Some y \<Rightarrow> (case a of None \<Rightarrow> False | Some x \<Rightarrow> y \<le> x))"
  obtain vs k where vs: "sorted vs" "map ?key ?out = map Some (rev vs) @ replicate k None"
    using keys_sort_values [OF assms, of ?key False rs] by auto
  have "sorted_wrt (\<lambda>x y. y \<le> x) (rev vs)"
    using vs(1) by (simp add: sorted_wrt_rev)
  then have "sorted_wrt ord (map Some (rev vs))"
    by (simp add: sorted_wrt_map ord_def)
  moreover have "sorted_wrt ord (replicate k None)"
    by (simp add: sorted_wrt_iff_nth_less ord_def)
  ultimately have "sorted_wrt ord (map ?key ?out)"
    unfolding vs(2) by (auto simp: sorted_wrt_append ord_def)
  then have "sorted_wrt (\<lambda>a b. ord (?key a) (?key b)) ?out"
    by (simp add: sorted_wrt_map)
  moreover have "ord (?key a) (?key b) = recent_first a b" for a b
    by (simp add: ord_def recent_first_def split: option.splits)
  ultimately show ?thesis by simp
qed

lemma quick_insights_last_30:
  "quick_insights kind df = Inr ins \<Longrightarrow> last_30_total kind df = Inr (last_30 ins)"
  by (auto simp: quick_insights_def Let_def split: sum.splits)

text \<open>
  Claim C3, as the code has it: on a frame with a date column the tail-window insight is
  the float64 sum of \<open>total\<close> over the first 30 rows of an arrangement of the filtered
  rows by date descending (undated rows last), where the order among rows of equal
  date is the sort kernel's; it is the figure \<^verbatim>\<open>quick_insights\<close> reports. For a
  frame of 30 rows or fewer the window holds every row, and when the totals are whole
  numbers whose magnitudes add up to at most 2 to the power 53 the window's sum is
  the sum of \<open>total\<close> over all rows.
\<close>

theorem tail_window_sum:
  assumes "argsort_ok kind" and "has_date df"
  shows "(\<exists>out. mset out = mset (rows df) \<and> sorted_wrt recent_first out
            \<and> last_30_total kind df = Inr (series_sum (map total (take 30 out)))
            \<and> (length (rows df) \<le> 30 \<longrightarrow> take 30 out = out))
       \<and> (\<forall>ins. quick_insights kind df = Inr ins
            \<longrightarrow> last_30_total kind df = Inr (last_30 ins))
       \<and> (length (rows df) \<le> 30 \<and> exact_amounts (map total (rows df))
            \<longrightarrow> last_30_total kind df = Inr (series_sum (map total (rows df))))"
proof -
  let ?out = "sort_values kind False (\<lambda>r. map_option real_of_int (date r)) (rows df)"
  have l: "last_30_total kind df = Inr (series_sum (map total (take 30 ?out)))"
    using assms(2) by (simp add: last_30_total_def latest_def)
  have m: "mset ?out = mset (rows df)"
    by (rule mset_sort_values [OF assms(1)])
  have s: "sorted_wrt recent_first ?out"
    by (rule sorted_wrt_recent_first [OF assms(1)])
  have t: "take 30 ?out = ?out" if "length (rows df) \<le> 30"
  proof -
    have "length ?out = length (rows df)"
      by (rule length_sort_values [OF assms(1)])
    then show ?thesis using that by simp
  qed
  have "last_30_total kind df = Inr (series_sum (map total (rows df)))"
    if "length (rows df) \<le> 30" and "exact_amounts (map total (rows df))"
    using l t [OF that(1)] series_sum_mset [OF m that(2)] by simp
  then show ?thesis using l m s t quick_insights_last_30 by blast
qed

theorem tail_window_sum_witness:
  "argsort_ok stable_argsort \<and> has_date example3
   \<and> quick_insights stable_argsort example3
       = Inr \<lparr>top_city = ''Yangon'', top_payment = ''Cash'', top_product = ''Health'',
              top_product_sales = Some 100, last_30 = 175\<rparr>
   \<and> last_30_total stable_argsort example3 = Inr 175
   \<and> series_sum (map total (rows example3)) = 175"
proof -
  have h: "has_date example3" by (simp add: example3_def)
  have n: "length (rows example3) \<le> 30" by (simp add: example3_def)
  have "series_sum (map total (rows example3))
          = (\<Sum>v\<leftarrow>map total (rows example3). case v of None \<Rightarrow> 0 | Some x \<Rightarrow> x)"
    by (rule series_sum_exact [OF exact_amounts_example3])
  also have "\<dots> = 175" by (simp add: example3_def sale_def)
  finally have s: "series_sum (map total (rows example3)) = 175" .
  have w: "last_30_total stable_argsort example3 = Inr 175"
    using tail_window_sum [OF argsort_ok_stable h] n exact_amounts_example3 s by simp
  have q: "quick_insights stable_argsort example3
       = Inr \<lparr>top_city = ''Yangon'', top_payment = ''Cash'', top_product = ''Health'',
              top_product_sales = Some 100, last_30 = 175\<rparr>"
    by code_simp
  show ?thesis using argsort_ok_stable h q w s by blast
qed

text \<open>
  Rows of equal date need not stay in their original order. On \<open>tied32\<close> the
  specification's window is the first 30 rows, with both totals of 100; with a kernel
  that sorts correctly and leaves equal keys in another order, the window of the code
  misses one of them. And on the three rows of \<open>rounding3\<close>, whose dates differ, the
  window adds the totals latest first and gets another float64 sum than the sum of
  \<open>total\<close> over the frame, which adds them in row order.
\<close>

theorem tail_window_ties_counterexample:
  "argsort_ok reversing_argsort
   \<and> map date (rows tied32) = replicate 32 (Some 1)
   \<and> quick_insights reversing_argsort tied32
       = Inr \<lparr>top_city = ''Yangon'', top_payment = ''Cash'', top_product = ''Food'',
              top_product_sales = Some 230, last_30 = 129\<rparr>
   \<and> spec_tail_window tied32 = 228
   \<and> length (rows rounding3) = 3
   \<and> last_30_total stable_argsort rounding3 = Inr 9007199254740992
   \<and> series_sum (map total (rows rounding3)) = 9007199254740994"
proof -
  have 1: "map date (rows tied32) = replicate 32 (Some 1)" by code_simp
  have 2: "quick_insights reversing_argsort tied32
       = Inr \<lparr>top_city = ''Yangon'', top_payment = ''Cash'', top_product = ''Food'',
              top_product_sales = Some 230, last_30 = 129\<rparr>"
    by code_simp
  have 3: "spec_tail_window tied32 = 228" by code_simp
  have 4: "length (rows rounding3) = 3" by (simp add: rounding3_def)
  have o: "latest stable_argsort rounding3
             = Inr [sale ''Yangon'' ''Food'' ''Female'' 9007199254740992 3,
                    sale ''Yangon'' ''Food'' ''Female'' 1 2,
                    sale ''Yangon'' ''Food'' ''Female'' 1 1]"
    by code_simp
  have 5: "last_30_total stable_argsort rounding3 = Inr 9007199254740992"
    unfolding last_30_total_def o
    by (simp add: sale_def series_sum_def f64_add_def f64_round_def
          f64_ulp_def binade_def scale_down.simps round_half_even_def Let_def)
  have 6: "series_sum (map total (rows rounding3)) = 9007199254740994"
    by (simp add: rounding3_def sale_def series_sum_def f64_add_def f64_round_def
          f64_ulp_def binade_def scale_down.simps round_half_even_def Let_def)
  show ?thesis using argsort_ok_reversing 1 2 3 4 5 6 by blast
qed

section \<open>Properties of the charts\<close>

lemma series_sort_values_sorted:
  assumes "argsort_ok kind"
  shows "sorted (map snd (series_sort_values kind s))"
proof -
  obtain vs where vs: "sorted vs"
    "map (\<lambda>kv. Some (snd kv)) (series_sort_values kind s)
       = map Some vs @ replicate (length (filter (\<lambda>v. v = None) (map (\<lambda>kv. Some (snd kv)) s))) None"
    using keys_sort_values [OF assms, of "\<lambda>kv. Some (snd kv)" True s]
    by (auto simp: series_sort_values_def)
  have "filter (\<lambda>v. v = None) (map (\<lambda>kv. Some (snd kv)) s) = []"
    by (simp add: filter_empty_conv)
  then have "map Some (map snd (series_sort_values kind s)) = map Some vs"
    using vs(2) by (simp add: comp_def)
  then have "map snd (series_sort_values kind s) = vs"
    by (rule map_inj_on [of Some]) (simp_all add: inj_on_def)
  then show ?thesis using vs(1) by simp
qed

lemma series_sort_values_mset:
  "argsort_ok kind \<Longrightarrow> mset (series_sort_values kind s) = mset s"
  by (simp add: series_sort_values_def mset_sort_values)

text \<open>
  Claim C4, as the code has it: every per-category sum-of-total series lists its
  categories in ascending label order, each once. Only the product-line series is then
  sorted ascending by its sums, and that one sorted series feeds both the product-line
  bar chart and the product-line pie chart; the city pie, the gender bar and the
  customer-type bar get the series in label order.
\<close>

theorem chart_series_order:
  assumes "argsort_ok kind"
  shows "(\<exists>grouped. sales_by_product kind df = [Barh grouped, Pie grouped]
            \<and> sorted (map snd grouped)
            \<and> mset grouped = mset (groupby_total_sum product_line df))
       \<and> sales_by_city df = [Pie (groupby_total_sum city df)]
       \<and> gender_comparison df = [Bar (groupby_total_sum gender df)]
       \<and> customer_type_breakdown df = [Bar (groupby_total_sum customer_type df)]
       \<and> sorted (map fst (groupby_total_sum col df))
       \<and> distinct (map fst (groupby_total_sum col df))"
proof -
  have "sales_by_product kind df
      = [Barh (series_sort_values kind (groupby_total_sum product_line df)),
         Pie (series_sort_values kind (groupby_total_sum product_line df))]"
    by (simp add: sales_by_product_def Let_def)
  then have 1: "\<exists>grouped. sales_by_product kind df = [Barh grouped, Pie grouped]
            \<and> sorted (map snd grouped)
            \<and> mset grouped = mset (groupby_total_sum product_line df)"
    using series_sort_values_sorted [OF assms] series_sort_values_mset [OF assms] by blast
  have 2: "sorted (map fst (groupby_total_sum col df))"
    "distinct (map fst (groupby_total_sum col df))"
    by (simp_all add: map_fst_groupby sorted_group_keys distinct_group_keys)
  show ?thesis
    using 1 2
    by (simp add: sales_by_city_def gender_comparison_def customer_type_breakdown_def Let_def)
qed

theorem chart_series_order_witness:
  "argsort_ok stable_argsort
   \<and> sales_by_product stable_argsort example3
       = [Barh [(''Food'', 75), (''Health'', 100)], Pie [(''Food'', 75), (''Health'', 100)]]
   \<and> sales_by_city example3 = [Pie [(''Mandalay'', 50), (''Yangon'', 125)]]
   \<and> gender_comparison example3 = [Bar [(''Female'', 125), (''Male'', 50)]]
   \<and> distinct (map fst (groupby_total_sum gender example3))"
proof -
  have 1: "sales_by_product stable_argsort example3
       = [Barh [(''Food'', 75), (''Health'', 100)], Pie [(''Food'', 75), (''Health'', 100)]]"
    by code_simp
  have 2: "groupby_total_sum city example3 = [(''Mandalay'', 50), (''Yangon'', 125)]"
    by code_simp
  have 3: "groupby_total_sum gender example3 = [(''Female'', 125), (''Male'', 50)]"
    by code_simp
  show ?thesis
    using chart_series_order [OF argsort_ok_stable, of example3 gender] argsort_ok_stable 1 2 3
    by simp
qed

text \<open>
  The gender bar chart is not in ascending order of the sums, and the product-line pie
  chart is in ascending order of the sums rather than in the categories' own order.
\<close>

theorem bar_not_sorted_counterexample:
  "gender_comparison example3 = [Bar [(''Female'', 125), (''Male'', 50)]]
   \<and> \<not> sorted (map snd [(''Female'', 125::real), (''Male'', 50)])
   \<and> groupby_total_sum product_line food_first = [(''Food'', 100), (''Health'', 50)]
   \<and> sales_by_product stable_argsort food_first
       = [Barh [(''Health'', 50), (''Food'', 100)], Pie [(''Health'', 50), (''Food'', 100)]]"
proof -
  have 1: "gender_comparison example3 = [Bar [(''Female'', 125), (''Male'', 50)]]"
    by code_simp
  have 2: "\<not> sorted (map snd [(''Female'', 125::real), (''Male'', 50)])"
    by simp
  have 3: "groupby_total_sum product_line food_first = [(''Food'', 100), (''Health'', 50)]"
    by code_simp
  have 4: "sales_by_product stable_argsort food_first
       = [Barh [(''Health'', 50), (''Food'', 100)], Pie [(''Health'', 50), (''Food'', 100)]]"
    by code_simp
  show ?thesis using 1 2 3 4 by blast
qed

section \<open>The empty frame and loading\<close>

lemma value_counts_empty:
  assumes "argsort_ok kind"
  shows "value_counts kind [] = []"
proof -
  have "length (value_counts kind []) = 0"
    using length_sort_values [OF assms, of False "\<lambda>kv. Some (snd kv)" "[]::(string \<times> real) list"]
    by (simp add: value_counts_def)
  then show ?thesis by simp
qed

lemma groupby_empty: "rows df = [] \<Longrightarrow> groupby_total_sum col df = []"
  by (simp add: groupby_total_sum_def group_keys_def)

lemma pearson_empty: "pearson [] [] = None"
  by (simp add: pearson_def complete_pairs_def List.map_filter_simps)

text \<open>
  Claim C1, as the code has it: on a filtered frame without rows the sum of \<open>total\<close>
  is 0, the count is 0, the mean of \<open>rating\<close> is NaN and every entry of the
  correlation matrix is NaN, none of them raising; each argmax extraction (top city,
  most used payment method, top product line) raises ValueError, and so does
  \<^verbatim>\<open>quick_insights\<close>.
\<close>

theorem empty_frame_aggregations:
  assumes "rows df = []" and "argsort_ok kind"
  shows "show_kpis df = \<lparr>total_sales = 0, average_rating = None, transactions = 0\<rparr>
       \<and> idxmax (groupby_total_sum city df) = Inl ValueError
       \<and> idxmax (value_counts kind (map payment (rows df))) = Inl ValueError
       \<and> idxmax (groupby_total_sum product_line df) = Inl ValueError
       \<and> quick_insights kind df = Inl ValueError
       \<and> correlation_matrix df = replicate (length numeric_columns) (replicate (length numeric_columns) None)"
proof -
  have 1: "show_kpis df = \<lparr>total_sales = 0, average_rating = None, transactions = 0\<rparr>"
    using assms(1) by (simp add: show_kpis_def series_mean_def)
  have 2: "idxmax (groupby_total_sum c df) = Inl ValueError" for c
    using assms(1) by (simp add: groupby_empty)
  have 3: "idxmax (value_counts kind (map payment (rows df))) = Inl ValueError"
    using assms by (simp add: value_counts_empty)
  have 4: "quick_insights kind df = Inl ValueError"
    by (simp add: quick_insights_def 2)
  have 5: "correlation_matrix df = replicate (length numeric_columns) (replicate (length numeric_columns) None)"
    using assms(1) by (simp add: correlation_matrix_def numeric_columns_def pearson_empty)
  show ?thesis using 1 2 3 4 5 by blast
qed

theorem empty_frame_aggregations_witness:
  "rows empty_frame = [] \<and> argsort_ok stable_argsort
   \<and> average_rating (show_kpis empty_frame) = None
   \<and> total_sales (show_kpis empty_frame) = 0
   \<and> idxmax (groupby_total_sum city empty_frame) = Inl ValueError
   \<and> quick_insights stable_argsort empty_frame = Inl ValueError"
proof -
  have h: "rows empty_frame = []" by (simp add: empty_frame_def)
  show ?thesis
    using empty_frame_aggregations [OF h argsort_ok_stable] h argsort_ok_stable by simp
qed

text \<open>On the empty frame \<^verbatim>\<open>quick_insights\<close> raises, and the mean is NaN.\<close>

theorem empty_frame_raises_counterexample:
  "quick_insights stable_argsort empty_frame = Inl ValueError
   \<and> idxmax (groupby_total_sum city empty_frame) = Inl ValueError
   \<and> average_rating (show_kpis empty_frame) = None"
  by code_simp

lemma series_sum_skips_None: "series_sum (xs @ None # ys) = series_sum (xs @ ys)"
  by (simp add: series_sum_def dropna_append)

text \<open>
  Claim C5: when the dates of the file parse (or it has no date column), loading
  returns a frame with one row per row of the file; a \<open>total\<close> cell whose text is
  not numeric is NaN in it, the rest of that row is as it was; and a NaN cell adds
  nothing to a sum. In the example the cell \<open>abc\<close> becomes NaN, its row stays, and the
  sum of \<open>total\<close> is that of the other two rows.
\<close>

theorem load_coerces_total:
  assumes "has_date raw \<longrightarrow> list_all (\<lambda>r. date_parses to_datetime (date r)) (rows raw)"
  shows "\<exists>df. load_data to_numeric to_datetime raw = Inr df
           \<and> length (rows df) = length (rows raw)
           \<and> (\<forall>i<length (rows raw). \<forall>s.
                 total (rows raw ! i) = Some s \<and> to_numeric s = None
                 \<longrightarrow> total (rows df ! i) = None
                     \<and> invoice_id (rows df ! i) = invoice_id (rows raw ! i)
                     \<and> city (rows df ! i) = city (rows raw ! i)
                     \<and> product_line (rows df ! i) = product_line (rows raw ! i)
                     \<and> gender (rows df ! i) = gender (rows raw ! i))
           \<and> (\<forall>xs ys. series_sum (xs @ None # ys) = series_sum (xs @ ys))"
  using assms
  by (auto simp: load_data_def load_row_def coerce_total_def series_sum_skips_None)

theorem load_coerces_total_witness:
  "(\<exists>df. load_data numbers_example dates_example raw_example = Inr df
        \<and> length (rows df) = 3
        \<and> total (rows df ! 1) = None
        \<and> city (rows df ! 1) = Some ''Mandalay''
        \<and> series_sum (map total (rows df)) = 125)"
proof -
  have h: "has_date raw_example
      \<longrightarrow> list_all (\<lambda>r. date_parses dates_example (date r)) (rows raw_example)"
    by code_simp
  obtain df where df: "load_data numbers_example dates_example raw_example = Inr df"
      "length (rows df) = length (rows raw_example)"
      "\<forall>i<length (rows raw_example). \<forall>s.
                 total (rows raw_example ! i) = Some s \<and> numbers_example s = None
                 \<longrightarrow> total (rows df ! i) = None
                     \<and> invoice_id (rows df ! i) = invoice_id (rows raw_example ! i)
                     \<and> city (rows df ! i) = city (rows raw_example ! i)
                     \<and> product_line (rows df ! i) = product_line (rows raw_example ! i)
                     \<and> gender (rows df ! i) = gender (rows raw_example ! i)"
    using load_coerces_total [OF h, of numbers_example] by blast
  have a: "total (rows raw_example ! 1) = Some ''abc''" "numbers_example ''abc'' = None"
      "city (rows raw_example ! 1) = Some ''Mandalay''" "length (rows raw_example) = 3"
    by (simp_all add: raw_example_def raw_sale_def numbers_example_def)
  have b: "total (rows df ! 1) = None \<and> city (rows df ! 1) = Some ''Mandalay''"
    using df(3) a by force
  have "load_data numbers_example dates_example raw_example
          = Inr \<lparr>rows = map (load_row numbers_example (convert_date dates_example))
                          (rows raw_example), has_date = True,
                 object_columns =
                   filter (\<lambda>c. c \<noteq> ''date'' \<and> c \<noteq> ''total'') (object_columns raw_example)\<rparr>"
    using h by (simp add: load_data_def raw_example_def)
  then have "rows df = map (load_row numbers_example (convert_date dates_example))
                          (rows raw_example)"
    using df(1) by auto
  moreover have "series_sum (map total (map (load_row numbers_example (convert_date dates_example))
                          (rows raw_example))) = 125"
    by code_simp
  ultimately have c: "series_sum (map total (rows df)) = 125" by simp
  show ?thesis using df(1,2) a(4) b c by auto
qed

section \<open>Properties of search and correlation\<close>

lemma title_eq_Nil: "(title s = []) = (s = [])"
  by (cases s) (simp_all add: title_def)

lemma isin_unique: "isin x (unique vs) = (x \<in> set vs)"
  by (simp add: isin_def unique_def)

lemma in_set_map_iff: "(y \<in> set (map f xs)) = (\<exists>x\<in>set xs. f x = y)"
  by auto

lemma search_column_text:
  assumes "entered \<noteq> []" and "name \<in> set (object_columns df)"
  shows "search_column name col not_found entered df =
           (if \<exists>r\<in>set (rows df). map_option title (col r) = Some (title entered)
            then ([Success (title entered)
                    (series_sum (map total
                       (filter (\<lambda>r. map_option title (col r) = Some (title entered))
                          (rows df))))], None)
            else ([Warning not_found], None))"
proof -
  have "(Some (title entered) \<in> set (str_title (map col (rows df))))
      = (\<exists>r\<in>set (rows df). map_option title (col r) = Some (title entered))"
    unfolding str_title_def map_map comp_def by (rule in_set_map_iff)
  then show ?thesis
    using assms
    by (simp add: search_column_def str_accessor_def Let_def title_eq_Nil isin_unique)
qed

lemma search_column_no_text:
  assumes "entered \<noteq> []" and "name \<notin> set (object_columns df)"
  shows "search_column name col not_found entered df = ([], Some AttributeError)"
  using assms by (simp add: search_column_def str_accessor_def Let_def title_eq_Nil)

lemma search_column_blank: "search_column name col not_found [] df = ([], None)"
  by (simp add: search_column_def title_def)

text \<open>
  Claim C6, as the code has it: for an entered name and a searched column that holds
  text (names and cells in ASCII), the search compares the title-cased name with the
  title-cased cells for equality. When some row matches, it reports the sum of
  \<open>total\<close> over exactly the matching rows; when none does, it shows the not-found
  warning; in both cases without raising. On a searched column that holds no text the
  \<^verbatim>\<open>.str\<close> accessor raises AttributeError and nothing is shown. The same holds
  for the product-line field.
\<close>

theorem search_exact_match:
  assumes "entered \<noteq> []" and "ascii_text entered"
    and "\<forall>r\<in>set (rows df). \<forall>c. city r = Some c \<or> product_line r = Some c \<longrightarrow> ascii_text c"
  shows "(''city'' \<in> set (object_columns df) \<longrightarrow>
            search_city_and_product entered [] df =
              (if \<exists>r\<in>set (rows df). map_option title (city r) = Some (title entered)
               then ([Success (title entered)
                       (series_sum (map total
                          (filter (\<lambda>r. map_option title (city r) = Some (title entered))
                             (rows df))))], None)
               else ([Warning ''City not found.''], None)))
       \<and> (''city'' \<notin> set (object_columns df) \<longrightarrow>
            search_city_and_product entered [] df = ([], Some AttributeError))
       \<and> (''product_line'' \<in> set (object_columns df) \<longrightarrow>
            search_city_and_product [] entered df =
              (if \<exists>r\<in>set (rows df). map_option title (product_line r) = Some (title entered)
               then ([Success (title entered)
                       (series_sum (map total
                          (filter (\<lambda>r. map_option title (product_line r) = Some (title entered))
                             (rows df))))], None)
               else ([Warning ''Product not found.''], None)))
       \<and> (''product_line'' \<notin> set (object_columns df) \<longrightarrow>
            search_city_and_product [] entered df = ([], Some AttributeError))"
proof (intro conjI impI)
  assume t: "''city'' \<in> set (object_columns df)"
  show "search_city_and_product entered [] df =
              (if \<exists>r\<in>set (rows df). map_option title (city r) = Some (title entered)
               then ([Success (title entered)
                       (series_sum (map total
                          (filter (\<lambda>r. map_option title (city r) = Some (title entered))
                             (rows df))))], None)
               else ([Warning ''City not found.''], None))"
    unfolding search_city_and_product_def search_column_blank
      search_column_text [OF assms(1) t] by simp
next
  assume t: "''city'' \<notin> set (object_columns df)"
  show "search_city_and_product entered [] df = ([], Some AttributeError)"
    unfolding search_city_and_product_def search_column_no_text [OF assms(1) t] by simp
next
  assume t: "''product_line'' \<in> set (object_columns df)"
  show "search_city_and_product [] entered df =
              (if \<exists>r\<in>set (rows df). map_option title (product_line r) = Some (title entered)
               then ([Success (title entered)
                       (series_sum (map total
                          (filter (\<lambda>r. map_option title (product_line r) = Some (title entered))
                             (rows df))))], None)
               else ([Warning ''Product not found.''], None))"
    unfolding search_city_and_product_def search_column_blank
      search_column_text [OF assms(1) t] by simp
next
  assume t: "''product_line'' \<notin> set (object_columns df)"
  show "search_city_and_product [] entered df = ([], Some AttributeError)"
    unfolding search_city_and_product_def search_column_blank
      search_column_no_text [OF assms(1) t] by simp
qed

lemma ascii_example3:
  "\<forall>r\<in>set (rows example3). \<forall>c. city r = Some c \<or> product_line r = Some c \<longrightarrow> ascii_text c"
  by (auto simp: example3_def sale_def ascii_text_def)

theorem search_exact_match_witness:
  "search_city_and_product ''yangon'' [] example3 = ([Success ''Yangon'' 125], None)
   \<and> search_city_and_product ''Paris'' [] example3 = ([Warning ''City not found.''], None)
   \<and> search_city_and_product ''Yang'' [] example3 = ([Warning ''City not found.''], None)
   \<and> search_city_and_product [] ''FOOD'' example3 = ([Success ''Food'' 75], None)"
proof -
  have n: "''yangon'' \<noteq> []" "''Paris'' \<noteq> []" "''Yang'' \<noteq> []" "''FOOD'' \<noteq> []"
    by simp_all
  have a: "ascii_text ''yangon''" "ascii_text ''Paris''" "ascii_text ''Yang''"
    "ascii_text ''FOOD''"
    by (simp_all add: ascii_text_def)
  have o: "(''city'' \<in> set (object_columns example3)) = True"
    "(''product_line'' \<in> set (object_columns example3)) = True"
    by (simp_all add: example3_def sale_columns_def)
  have t: "title ''yangon'' = ''Yangon''" "title ''Paris'' = ''Paris''"
    "title ''Yang'' = ''Yang''" "title ''FOOD'' = ''Food''"
    by code_simp+
  have c: "map (\<lambda>r. map_option title (city r)) (rows example3)
             = [Some ''Yangon'', Some ''Mandalay'', Some ''Yangon'']"
    "map (\<lambda>r. map_option title (product_line r)) (rows example3)
             = [Some ''Health'', Some ''Food'', Some ''Food'']"
    by code_simp+
  have s: "series_sum (map total
             (filter (\<lambda>r. map_option title (city r) = Some ''Yangon'') (rows example3))) = 125"
    "series_sum (map total
             (filter (\<lambda>r. map_option title (product_line r) = Some ''Food'') (rows example3))) = 75"
    by code_simp+
  have e: "(\<exists>r\<in>set (rows example3). map_option title (city r) = Some x)
             = (Some x \<in> set (map (\<lambda>r. map_option title (city r)) (rows example3)))"
     "(\<exists>r\<in>set (rows example3). map_option title (product_line r) = Some x)
             = (Some x \<in> set (map (\<lambda>r. map_option title (product_line r)) (rows example3)))"
    for x by (rule in_set_map_iff [symmetric])+
  have m: "(Some ''Yangon'' \<in> set [Some ''Yangon'', Some ''Mandalay'', Some ''Yangon'']) = True"
    "(Some ''Paris'' \<in> set [Some ''Yangon'', Some ''Mandalay'', Some ''Yangon'']) = False"
    "(Some ''Yang'' \<in> set [Some ''Yangon'', Some ''Mandalay'', Some ''Yangon'']) = False"
    "(Some ''Food'' \<in> set [Some ''Health'', Some ''Food'', Some ''Food'']) = True"
    by simp_all
  have 1: "search_city_and_product ''yangon'' [] example3 = ([Success ''Yangon'' 125], None)"
    using search_exact_match [OF n(1) a(1) ascii_example3, THEN conjunct1]
    by (simp only: o t e c s m if_True simp_thms)
  have 2: "search_city_and_product ''Paris'' [] example3 = ([Warning ''City not found.''], None)"
    using search_exact_match [OF n(2) a(2) ascii_example3, THEN conjunct1]
    by (simp only: o t e c m if_False simp_thms)
  have 3: "search_city_and_product ''Yang'' [] example3 = ([Warning ''City not found.''], None)"
    using search_exact_match [OF n(3) a(3) ascii_example3, THEN conjunct1]
    by (simp only: o t e c m if_False simp_thms)
  have 4: "search_city_and_product [] ''FOOD'' example3 = ([Success ''Food'' 75], None)"
    using search_exact_match [OF n(4) a(4) ascii_example3,
        THEN conjunct2, THEN conjunct2, THEN conjunct1]
    by (simp only: o t e c s m if_True simp_thms)
  show ?thesis using 1 2 3 4 by blast
qed

text \<open>
  The city column of \<open>no_city_text\<close> holds no text: the search for a city that is not
  there raises AttributeError instead of showing the not-found warning.
\<close>

theorem search_raises_counterexample:
  "map city (rows no_city_text) = [None]
   \<and> search_city_and_product ''Paris'' [] no_city_text = ([], Some AttributeError)"
  by code_simp

lemma complete_pairs_simps [simp]:
  "complete_pairs [] ys = []"
  "complete_pairs xs [] = []"
  "complete_pairs (Some a # xs) (Some b # ys) = (a, b) # complete_pairs xs ys"
  "complete_pairs (None # xs) (y # ys) = complete_pairs xs ys"
  "complete_pairs (x # xs) (None # ys) = complete_pairs xs ys"
  by (cases x; simp add: complete_pairs_def List.map_filter_simps)+

lemma complete_pairs_swap:
  "complete_pairs ys xs = map (\<lambda>p. (snd p, fst p)) (complete_pairs xs ys)"
proof (induction xs arbitrary: ys)
  case Nil show ?case by simp
next
  case (Cons x xs)
  show ?case
  proof (cases ys)
    case Nil then show ?thesis by simp
  next
    case (Cons y ys')
    then show ?thesis using Cons.IH [of ys'] by (cases x; cases y) simp_all
  qed
qed

lemma complete_pairs_self: "complete_pairs xs xs = map (\<lambda>v. (v, v)) (dropna xs)"
proof (induction xs)
  case Nil show ?case by simp
next
  case (Cons x xs) then show ?case by (cases x) simp_all
qed

lemma pearson_sym: "pearson xs ys = pearson ys xs"
  unfolding pearson_def complete_pairs_swap [of ys xs]
  by (simp add: Let_def comp_def mult.commute)

lemma pearson_self:
  assumes "ssqd xs \<noteq> 0"
  shows "pearson xs xs = Some 1"
proof -
  define vs where "vs = dropna xs"
  define q where "q = (\<Sum>v\<leftarrow>vs. (v - mean_of vs) * (v - mean_of vs))"
  have q: "q \<noteq> 0" using assms by (simp add: ssqd_def Let_def vs_def q_def)
  then have ne: "vs \<noteq> []" by (auto simp: q_def)
  have "0 \<le> q" unfolding q_def by (rule sum_list_nonneg) auto
  then have d: "sqrt (q * q) = q" by simp
  have m: "mean_of (map fst (map (\<lambda>v. (v, v)) vs)) = mean_of vs"
          "mean_of (map snd (map (\<lambda>v. (v, v)) vs)) = mean_of vs"
    by (simp_all add: comp_def)
  have "pearson xs xs = (if sqrt (q * q) \<noteq> 0 then Some (q / sqrt (q * q)) else None)"
    unfolding pearson_def complete_pairs_self vs_def [symmetric]
    using ne by (simp add: Let_def m comp_def q_def Suc_le_eq)
  then show ?thesis using q d by simp
qed

text \<open>
  Claim C10: the correlation matrix over the numeric columns is symmetric, and the
  diagonal entry of a column whose present values have a nonzero sum of squared
  deviations from their mean (nonzero variance) is 1.
\<close>

theorem correlation_symmetric_unit_diagonal:
  assumes "i < length numeric_columns" and "j < length numeric_columns"
  shows "correlation_matrix df ! i ! j = correlation_matrix df ! j ! i
       \<and> (ssqd (map (snd (numeric_columns ! i)) (rows df)) \<noteq> 0
            \<longrightarrow> correlation_matrix df ! i ! i = Some 1)"
  using assms by (simp add: correlation_matrix_def pearson_sym [of _ "map (snd (numeric_columns ! j)) (rows df)"] pearson_self)

theorem correlation_symmetric_unit_diagonal_witness:
  "correlation_matrix example3 ! 3 ! 7 = correlation_matrix example3 ! 7 ! 3
   \<and> ssqd (map total (rows example3)) \<noteq> 0
   \<and> correlation_matrix example3 ! 3 ! 3 = Some 1"
proof -
  have l: "(3::nat) < length numeric_columns" "(7::nat) < length numeric_columns"
    by (simp_all add: numeric_columns_def)
  have c: "snd (numeric_columns ! 3) = total"
    by (simp add: numeric_columns_def)
  have v: "ssqd (map total (rows example3)) \<noteq> 0"
    by code_simp
  show ?thesis
    using correlation_symmetric_unit_diagonal [OF l(1) l(2), of example3] c v by simp
qed

end
